theory Spec2Isabelle
  imports
    Main
    "HOL-Library.Char_ord"
    "HOL-Library.List_Lexorder"
    "HOL-Library.Multiset"
    "HOL-Library.Product_Lexorder"
begin

section \<open>Python values the feed aggregator works on\<close>

text \<open>
  Exceptions are values. \<open>Raised msg\<close> stands for an exception thrown by an external
  library call (feedparser, requests, icalendar); \<open>msg\<close> is its \<open>str()\<close>.
\<close>

datatype py_error = TypeError | ValueError | OverflowError | HTTPError int | Raised string

text \<open>
  A \<open>datetime.datetime\<close>: the seven calendar fields and the attached \<open>tzinfo\<close>.
  \<open>tzinfo = None\<close> is a naive datetime; \<open>Some off\<close> is an aware one whose
  \<open>utcoffset()\<close> is \<open>off\<close> seconds (\<open>timezone.utc\<close> is \<open>Some 0\<close>).
\<close>

record datetime =
  year :: int
  month :: int
  day :: int
  hour :: int
  minute :: int
  second :: int
  microsecond :: int
  tzinfo :: "int option"

text \<open>A \<open>datetime.date\<close>, the value of a date-only \<open>DTSTART\<close>.\<close>

record date =
  d_year :: int
  d_month :: int
  d_day :: int

text \<open>A normalised \<open>datetime.timedelta\<close>: days, seconds in \<open>[0, 86400)\<close>, microseconds.\<close>

record timedelta =
  td_days :: int
  td_seconds :: int
  td_microseconds :: int

subsection \<open>Calendar arithmetic of the datetime module\<close>

definition is_leap :: "int \<Rightarrow> bool" where
  "is_leap y = (y mod 4 = 0 \<and> (y mod 100 \<noteq> 0 \<or> y mod 400 = 0))"

definition month_lengths :: "int list" where
  "month_lengths = [0, 31, 28, 31, 30, 31, 30, 31, 31, 30, 31, 30, 31]"

definition month_starts :: "int list" where
  "month_starts = [0, 0, 31, 59, 90, 120, 151, 181, 212, 243, 273, 304, 334]"

definition days_in_month :: "int \<Rightarrow> int \<Rightarrow> int" where
  "days_in_month y m =
     (if m = 2 \<and> is_leap y then 29
      else if 1 \<le> m \<and> m \<le> 12 then month_lengths ! nat m else 0)"

definition days_before_month :: "int \<Rightarrow> int \<Rightarrow> int" where
  "days_before_month y m =
     (if 1 \<le> m \<and> m \<le> 12
      then month_starts ! nat m + (if m > 2 \<and> is_leap y then 1 else 0) else 0)"

definition days_before_year :: "int \<Rightarrow> int" where
  "days_before_year y' = (let y = y' - 1 in y * 365 + y div 4 - y div 100 + y div 400)"

definition ymd_to_ord :: "int \<Rightarrow> int \<Rightarrow> int \<Rightarrow> int" where
  "ymd_to_ord y m d = days_before_year y + days_before_month y m + d"

definition MAXORDINAL :: int where
  "MAXORDINAL = 3652059"

definition ord_to_ymd :: "int \<Rightarrow> int \<times> int \<times> int" where
  "ord_to_ymd ordinal =
     (let n0 = ordinal - 1;
          n400 = n0 div 146097; na = n0 mod 146097;
          n100 = na div 36524; nb = na mod 36524;
          n4 = nb div 1461; nc = nb mod 1461;
          n1 = nc div 365; n = nc mod 365;
          y = n400 * 400 + 1 + n100 * 100 + n4 * 4 + n1
      in if n1 = 4 \<or> n100 = 4 then (y - 1, 12, 31)
         else
           let leapyear = (n1 = 3 \<and> (n4 \<noteq> 24 \<or> n100 = 3));
               m = (n + 50) div 32;
               preceding = month_starts ! nat m + (if m > 2 \<and> leapyear then 1 else 0)
           in if preceding > n
              then (y, m - 1, n - (preceding - days_in_month y (m - 1)) + 1)
              else (y, m, n - preceding + 1))"

text \<open>
  \<open>normalize_pair\<close>: carry the part of \<open>lo\<close> outside \<open>[0, factor)\<close> into \<open>hi\<close>
  (floor division, as the C helper \<open>divmod\<close> does).
\<close>

definition normalize_pair :: "int \<Rightarrow> int \<Rightarrow> int \<Rightarrow> int \<times> int" where
  "normalize_pair hi lo factor =
     (if lo < 0 \<or> lo \<ge> factor then (hi + lo div factor, lo mod factor) else (hi, lo))"

definition normalize_y_m_d :: "int \<Rightarrow> int \<Rightarrow> int \<Rightarrow> py_error + (int \<times> int \<times> int)" where
  "normalize_y_m_d y m d =
     (let dim = days_in_month y m;
          check = (\<lambda>(y', m', d'). if 1 \<le> y' \<and> y' \<le> 9999 then Inr (y', m', d') else Inl OverflowError)
      in if d < 1 \<or> d > dim then
           (if d = 0 then
              (if m - 1 > 0 then check (y, m - 1, days_in_month y (m - 1))
               else check (y - 1, 12, 31))
            else if d = dim + 1 then
              (if m + 1 > 12 then check (y + 1, 1, 1) else check (y, m + 1, 1))
            else
              let ordinal = ymd_to_ord y m 1 + d - 1
              in if ordinal < 1 \<or> ordinal > MAXORDINAL then Inl OverflowError
                 else Inr (ord_to_ymd ordinal))
         else check (y, m, d))"

text \<open>
  \<open>datetime + factor * timedelta\<close> (\<open>add_datetime_timedelta\<close>): add field-wise, then
  carry microseconds, seconds, minutes and hours upwards and renormalise the date.
  The \<open>tzinfo\<close> is kept.
\<close>

definition add_datetime_timedelta :: "datetime \<Rightarrow> timedelta \<Rightarrow> int \<Rightarrow> py_error + datetime" where
  "add_datetime_timedelta dt delta factor =
     (let d0 = day dt + td_days delta * factor;
          s0 = second dt + td_seconds delta * factor;
          u0 = microsecond dt + td_microseconds delta * factor;
          (s1, us) = normalize_pair s0 u0 1000000;
          (mi1, s) = normalize_pair (minute dt) s1 60;
          (h1, mi) = normalize_pair (hour dt) mi1 60;
          (d1, h) = normalize_pair d0 h1 24
      in case normalize_y_m_d (year dt) (month dt) d1 of
           Inl e \<Rightarrow> Inl e
         | Inr (y, m, d) \<Rightarrow>
             Inr (dt\<lparr>year := y, month := m, day := d, hour := h, minute := mi,
                      second := s, microsecond := us\<rparr>))"

text \<open>\<open>timedelta(hours=n)\<close>, \<open>timedelta(days=n)\<close> and \<open>timedelta(seconds=n)\<close>.\<close>

definition timedelta_seconds :: "int \<Rightarrow> timedelta" where
  "timedelta_seconds n = \<lparr>td_days = n div 86400, td_seconds = n mod 86400, td_microseconds = 0\<rparr>"

definition timedelta_hours :: "int \<Rightarrow> timedelta" where
  "timedelta_hours n = timedelta_seconds (n * 3600)"

definition timedelta_days :: "int \<Rightarrow> timedelta" where
  "timedelta_days n = \<lparr>td_days = n, td_seconds = 0, td_microseconds = 0\<rparr>"

subsection \<open>Comparing datetimes\<close>

text \<open>
  The tuple \<open>datetime._cmp\<close> compares when both operands carry the same offset.
\<close>

definition dt_key :: "datetime \<Rightarrow> int \<times> int \<times> int \<times> int \<times> int \<times> int \<times> int" where
  "dt_key d = (year d, month d, day d, hour d, minute d, second d, microsecond d)"

text \<open>
  Microseconds since 0001-01-01T00:00 UTC of an aware datetime: what the difference
  \<open>self - other\<close> of two aware datetimes is computed from.
\<close>

definition utc_micros :: "datetime \<Rightarrow> int" where
  "utc_micros d =
     (((ymd_to_ord (year d) (month d) (day d) * 24 + hour d) * 60 + minute d) * 60
        + second d - (case tzinfo d of None \<Rightarrow> 0 | Some off \<Rightarrow> off)) * 1000000
      + microsecond d"

text \<open>
  \<open>datetime._cmp\<close>: \<open>-1\<close>, \<open>0\<close> or \<open>1\<close>; comparing a naive with an aware datetime
  raises \<open>TypeError\<close>.
\<close>

definition dt_cmp :: "datetime \<Rightarrow> datetime \<Rightarrow> py_error + int" where
  "dt_cmp a b =
     (if tzinfo a = tzinfo b then
        Inr (if dt_key a = dt_key b then 0 else if dt_key a > dt_key b then 1 else -1)
      else if tzinfo a = None \<or> tzinfo b = None then Inl TypeError
      else
        let diff = utc_micros a - utc_micros b
        in Inr (if diff < 0 then -1 else if diff \<noteq> 0 then 1 else 0))"

definition dt_ge :: "datetime \<Rightarrow> datetime \<Rightarrow> py_error + bool" where
  "dt_ge a b = (case dt_cmp a b of Inl e \<Rightarrow> Inl e | Inr c \<Rightarrow> Inr (c \<ge> 0))"

definition dt_lt :: "datetime \<Rightarrow> datetime \<Rightarrow> py_error + bool" where
  "dt_lt a b = (case dt_cmp a b of Inl e \<Rightarrow> Inl e | Inr c \<Rightarrow> Inr (c < 0))"

text \<open>A datetime the constructor accepts.\<close>

definition valid_datetime :: "datetime \<Rightarrow> bool" where
  "valid_datetime d =
     (1 \<le> year d \<and> year d \<le> 9999 \<and> 1 \<le> month d \<and> month d \<le> 12 \<and>
      1 \<le> day d \<and> day d \<le> days_in_month (year d) (month d) \<and>
      0 \<le> hour d \<and> hour d < 24 \<and> 0 \<le> minute d \<and> minute d < 60 \<and>
      0 \<le> second d \<and> second d < 60 \<and> 0 \<le> microsecond d \<and> microsecond d < 1000000)"

definition is_utc :: "datetime \<Rightarrow> bool" where
  "is_utc d = (valid_datetime d \<and> tzinfo d = Some 0)"

section \<open>Strings\<close>

text \<open>
  Strings are sequences of 8-bit characters compared lexicographically by character
  code, as Python compares \<open>str\<close> values of ASCII text. \<open>isspace\<close> is the ASCII part
  of \<open>str.isspace\<close>.
\<close>

definition isspace :: "char \<Rightarrow> bool" where
  "isspace c = (let n = (of_char c :: nat) in (9 \<le> n \<and> n \<le> 13) \<or> (28 \<le> n \<and> n \<le> 32))"

definition lstrip :: "string \<Rightarrow> string" where
  "lstrip s = dropWhile isspace s"

definition rstrip :: "string \<Rightarrow> string" where
  "rstrip s = rev (dropWhile isspace (rev s))"

definition strip :: "string \<Rightarrow> string" where
  "strip s = rstrip (lstrip s)"

text \<open>\<open>s.replace("\n", " ")\<close>.\<close>

definition replace_newlines :: "string \<Rightarrow> string" where
  "replace_newlines s = map (\<lambda>c. if c = CHR 0x0A then CHR '' '' else c) s"

text \<open>\<open>a or b\<close> on strings: the empty string is falsy.\<close>

definition str_or :: "string \<Rightarrow> string \<Rightarrow> string" where
  "str_or a b = (if a \<noteq> [] then a else b)"

text \<open>\<open>"\n".join(lines)\<close>.\<close>

fun join_lines :: "string list \<Rightarrow> string" where
  "join_lines [] = []"
| "join_lines [l] = l"
| "join_lines (l # ls) = l @ [CHR 0x0A] @ join_lines ls"

subsection \<open>Decimal formatting\<close>

definition digit_char :: "nat \<Rightarrow> char" where
  "digit_char n = char_of (48 + n)"

fun dec :: "nat \<Rightarrow> string" where
  "dec n = (if n < 10 then [digit_char n] else dec (n div 10) @ [digit_char (n mod 10)])"

declare dec.simps [simp del]

definition zfill :: "nat \<Rightarrow> string \<Rightarrow> string" where
  "zfill w s = replicate (w - length s) (CHR ''0'') @ s"

text \<open>The \<open>%0wd\<close> conversion.\<close>

definition fmt_d :: "nat \<Rightarrow> int \<Rightarrow> string" where
  "fmt_d w i = (if i < 0 then CHR ''-'' # zfill (w - 1) (dec (nat (- i))) else zfill w (dec (nat i)))"

definition digit_val :: "char \<Rightarrow> int option" where
  "digit_val c = (let n = (of_char c :: nat) in if 48 \<le> n \<and> n \<le> 57 then Some (int n - 48) else None)"

text \<open>The value of a non-empty run of ASCII digits; \<open>None\<close> for anything else.\<close>

fun digits_val :: "int \<Rightarrow> string \<Rightarrow> int option" where
  "digits_val acc [] = Some acc"
| "digits_val acc (c # cs) =
     (case digit_val c of None \<Rightarrow> None | Some v \<Rightarrow> digits_val (acc * 10 + v) cs)"

definition parse_int :: "string \<Rightarrow> int option" where
  "parse_int s = (if s = [] then None else digits_val 0 s)"

subsection \<open>isoformat and fromisoformat\<close>

text \<open>The UTC offset suffix of \<open>datetime.isoformat()\<close>, for an offset in whole seconds.\<close>

definition format_offset :: "int \<Rightarrow> string" where
  "format_offset off =
     (let a = \<bar>off\<bar>; hh = a div 3600; mm = (a mod 3600) div 60; ss = a mod 60
      in (if off < 0 then ''-'' else ''+'') @ fmt_d 2 hh @ '':'' @ fmt_d 2 mm
         @ (if ss \<noteq> 0 then '':'' @ fmt_d 2 ss else []))"

definition isoformat :: "datetime \<Rightarrow> string" where
  "isoformat d =
     fmt_d 4 (year d) @ ''-'' @ fmt_d 2 (month d) @ ''-'' @ fmt_d 2 (day d) @ ''T''
     @ fmt_d 2 (hour d) @ '':'' @ fmt_d 2 (minute d) @ '':'' @ fmt_d 2 (second d)
     @ (if microsecond d \<noteq> 0 then ''.'' @ fmt_d 6 (microsecond d) else [])
     @ (case tzinfo d of None \<Rightarrow> [] | Some off \<Rightarrow> format_offset off)"

text \<open>
  The reading of an offset suffix \<open>+HH:MM\<close> or \<open>+HH:MM:SS\<close> (either sign); the empty
  suffix is a naive datetime.
\<close>

definition parse_offset :: "string \<Rightarrow> int option option" where
  "parse_offset s =
     (if s = [] then Some None
      else if (hd s = CHR ''+'' \<or> hd s = CHR ''-'') \<and> (length s = 6 \<or> length s = 9)
              \<and> s ! 3 = CHR '':'' \<and> (if length s = 9 then s ! 6 = CHR '':'' else True)
      then
        (case (parse_int (take 2 (drop 1 s)), parse_int (take 2 (drop 4 s)),
               if length s = 9 then parse_int (take 2 (drop 7 s)) else Some 0) of
           (Some hh, Some mm, Some ss) \<Rightarrow>
             if hh < 24 \<and> mm < 60 \<and> ss < 60
             then Some (Some ((if hd s = CHR ''-'' then -1 else 1) * (hh * 3600 + mm * 60 + ss)))
             else None
         | _ \<Rightarrow> None)
      else None)"

text \<open>
  \<open>datetime.fromisoformat\<close> on the strings \<open>isoformat()\<close> writes:
  \<open>YYYY-MM-DD\<close>, one separator character, \<open>HH:MM:SS\<close>, an optional \<open>.ffffff\<close> and an
  optional offset. \<open>None\<close> is the \<open>ValueError\<close> of a string that is not of this shape or
  names no valid date or time. \<open>main.py\<close> applies it to stored \<open>dt\<close> strings only, which
  \<open>isoformat()\<close> wrote.
\<close>

definition fromisoformat :: "string \<Rightarrow> datetime option" where
  "fromisoformat s =
     (if length s < 19 \<or> s ! 4 \<noteq> CHR ''-'' \<or> s ! 7 \<noteq> CHR ''-''
         \<or> s ! 13 \<noteq> CHR '':'' \<or> s ! 16 \<noteq> CHR '':'' then None
      else
        let rest = drop 19 s;
            has_frac = (rest \<noteq> [] \<and> hd rest = CHR ''.'');
            frac = (if has_frac then take 6 (drop 1 rest) else ''000000'');
            tzs = (if has_frac then drop 7 rest else rest)
        in if has_frac \<and> length frac \<noteq> 6 then None
           else
             (case (parse_int (take 4 s), parse_int (take 2 (drop 5 s)),
                    parse_int (take 2 (drop 8 s)), parse_int (take 2 (drop 11 s)),
                    parse_int (take 2 (drop 14 s)), parse_int (take 2 (drop 17 s)),
                    parse_int frac, parse_offset tzs) of
                (Some y, Some m, Some d, Some h, Some mi, Some sec, Some us, Some tz) \<Rightarrow>
                  (let r = \<lparr>year = y, month = m, day = d, hour = h, minute = mi,
                            second = sec, microsecond = us, tzinfo = tz\<rparr>
                   in if valid_datetime r then Some r else None)
              | _ \<Rightarrow> None))"

text \<open>\<open>strftime("%Y-%m-%d %H:%M")\<close>.\<close>

definition strftime_ymd_hm :: "datetime \<Rightarrow> string" where
  "strftime_ymd_hm d =
     fmt_d 4 (year d) @ ''-'' @ fmt_d 2 (month d) @ ''-'' @ fmt_d 2 (day d) @ '' ''
     @ fmt_d 2 (hour d) @ '':'' @ fmt_d 2 (minute d)"

section \<open>Raw records and the outside world\<close>

text \<open>
  An entry of a parsed feed, with the fields the program reads. \<open>None\<close> is a key that
  is absent (for the \<open>*_parsed\<close> tuples: absent or \<open>None\<close>, which every reader treats
  alike). The tuples are \<open>time.struct_time\<close> values.
\<close>

record rss_entry =
  e_published :: "string option"
  e_updated :: "string option"
  e_created :: "string option"
  e_published_parsed :: "int list option"
  e_updated_parsed :: "int list option"
  e_title :: "string option"
  e_link :: "string option"
  e_summary :: "string option"

text \<open>
  What \<open>feedparser.parse\<close> returns: whether \<open>fp.feed\<close> holds any key, its \<open>title\<close>
  when it has one, and \<open>fp.entries\<close>. \<open>bozo\<close> is the flag the library sets, with
  \<open>bozo_exception\<close>, when the download failed or the body is not well-formed: it
  reports these in its result and does not raise. Neither program reads the flag.
\<close>

record parsed_feed =
  bozo :: bool
  feed_present :: bool
  feed_title :: "string option"
  entries :: "rss_entry list"

text \<open>The \<open>.dt\<close> of a \<open>DTSTART\<close> property: a datetime, or a date for a whole-day event.\<close>

datatype dt_value = DateTimeValue datetime | DateValue date

record component =
  c_name :: string
  c_summary :: "string option"
  c_dtstart :: "dt_value option"
  c_url :: "string option"
  c_organizer :: "string option"

record http_response =
  status_code :: int
  content :: string

text \<open>
  What the program gets from outside, as parameters: the clock, the network and parser
  libraries and the free-text date parsers \<open>dateutil.parser.parse\<close> and
  \<open>datetime.fromisoformat\<close> on feed text (\<open>Inl\<close> is the exception a call raises), the
  system's local time zone, and the time zone
  database (\<open>None\<close> when \<open>America/New_York\<close> cannot be loaded). A zone is the function
  giving its UTC offset in seconds at a datetime.
\<close>

record world =
  now_utc :: datetime
  feedparser_parse :: "string \<Rightarrow> py_error + parsed_feed"
  requests_get :: "string \<Rightarrow> py_error + http_response"
  calendar_walk :: "string \<Rightarrow> py_error + component list"
  dtparse_parse :: "string \<Rightarrow> py_error + datetime"
  text_fromisoformat :: "string \<Rightarrow> py_error + datetime"
  local_utcoffset :: "datetime \<Rightarrow> int"
  zone_new_york :: "(datetime \<Rightarrow> int) option"

text \<open>The item dictionaries of \<open>main.py\<close>; \<open>dt\<close> is an ISO 8601 string.\<close>

record item =
  item_type :: string
  source :: string
  title :: string
  link :: string
  dt :: string

subsection \<open>Constructing and converting datetimes\<close>

text \<open>\<open>datetime(*args, tzinfo=tz)\<close>: missing time fields are 0; the fields are validated.\<close>

definition datetime_new :: "int list \<Rightarrow> int option \<Rightarrow> py_error + datetime" where
  "datetime_new args tz =
     (if length args < 3 \<or> length args > 7 then Inl TypeError
      else
        let f = (\<lambda>i. if i < length args then args ! i else 0);
            r = \<lparr>year = f 0, month = f 1, day = f 2, hour = f 3, minute = f 4,
                 second = f 5, microsecond = f 6, tzinfo = tz\<rparr>
        in if valid_datetime r then Inr r else Inl ValueError)"

text \<open>
  \<open>d.astimezone(timezone.utc)\<close>: subtract the offset of \<open>d\<close> and tag the result UTC.
  A naive \<open>d\<close> is presumed to be in the system's local time zone. An offset that is
  not strictly between minus and plus 24 hours is a \<open>ValueError\<close>.
\<close>

definition astimezone_utc :: "(datetime \<Rightarrow> int) \<Rightarrow> datetime \<Rightarrow> py_error + datetime" where
  "astimezone_utc local d =
     (let off = (case tzinfo d of None \<Rightarrow> local d | Some off \<Rightarrow> off)
      in if \<not> (- 86400 < off \<and> off < 86400) then Inl ValueError
         else
           (case add_datetime_timedelta d (timedelta_seconds off) (- 1) of
              Inl e \<Rightarrow> Inl e
            | Inr r \<Rightarrow> Inr (r\<lparr>tzinfo := Some 0\<rparr>)))"

text \<open>
  \<open>d.astimezone(zone)\<close> for a zone of the time zone database: convert to UTC, then
  \<open>zone.fromutc\<close> adds the offset the zone has at that instant.
\<close>

definition astimezone_zone ::
  "(datetime \<Rightarrow> int) \<Rightarrow> (datetime \<Rightarrow> int) \<Rightarrow> datetime \<Rightarrow> py_error + datetime" where
  "astimezone_zone local zone d =
     (case astimezone_utc local d of
        Inl e \<Rightarrow> Inl e
      | Inr u \<Rightarrow>
          if \<not> (- 86400 < zone u \<and> zone u < 86400) then Inl ValueError
          else
            (case add_datetime_timedelta u (timedelta_seconds (zone u)) 1 of
               Inl e \<Rightarrow> Inl e
             | Inr r \<Rightarrow> Inr (r\<lparr>tzinfo := Some (zone u)\<rparr>)))"

text \<open>\<open>d.replace(tzinfo=timezone.utc)\<close>.\<close>

definition replace_tz_utc :: "datetime \<Rightarrow> datetime" where
  "replace_tz_utc d = d\<lparr>tzinfo := Some 0\<rparr>"

section \<open>The multi-source program (main.py)\<close>

text \<open>\<open>to_dt\<close>: a datetime is returned as it is, anything else is parsed as text.\<close>

datatype py_obj = Text string | Stamp datetime

definition to_dt :: "world \<Rightarrow> py_obj \<Rightarrow> py_error + datetime" where
  "to_dt w obj = (case obj of Stamp d \<Rightarrow> Inr d | Text s \<Rightarrow> dtparse_parse w s)"

text \<open>
  \<open>iso_ny\<close>: the New York wall time; when the zone cannot be loaded or the conversion
  raises, the UTC time with the suffix \<open>UTC\<close>.
\<close>

definition iso_ny :: "world \<Rightarrow> datetime \<Rightarrow> py_error + string" where
  "iso_ny w d =
     (case (case zone_new_york w of
              None \<Rightarrow> Inl (Raised ''ZoneInfoNotFoundError'')
            | Some z \<Rightarrow> astimezone_zone (local_utcoffset w) z d) of
        Inr l \<Rightarrow> Inr (strftime_ymd_hm l)
      | Inl _ \<Rightarrow>
          (case astimezone_utc (local_utcoffset w) d of
             Inl e \<Rightarrow> Inl e
           | Inr u \<Rightarrow> Inr (strftime_ymd_hm u @ '' UTC'')))"

text \<open>\<open>within_window\<close>: \<open>dt_obj >= since_dt\<close>.\<close>

definition within_window :: "datetime \<Rightarrow> datetime \<Rightarrow> py_error + bool" where
  "within_window dt_obj since_dt = dt_ge dt_obj since_dt"

subsection \<open>fetch_rss\<close>

text \<open>
  The loop over \<open>("published", "updated", "created")\<close>; the list holds the value of each
  key in that order, \<open>None\<close> for a key the entry lacks. A value whose parse raises is
  passed over.
\<close>

fun rss_text_candidate :: "world \<Rightarrow> string option list \<Rightarrow> datetime option" where
  "rss_text_candidate w [] = None"
| "rss_text_candidate w (None # keys) = rss_text_candidate w keys"
| "rss_text_candidate w (Some s # keys) =
     (case to_dt w (Text s) of
        Inr d \<Rightarrow> Some d
      | Inl _ \<Rightarrow> rss_text_candidate w keys)"

definition rss_dt_candidate :: "world \<Rightarrow> rss_entry \<Rightarrow> py_error + datetime option" where
  "rss_dt_candidate w e =
     (case rss_text_candidate w [e_published e, e_updated e, e_created e] of
        Some d \<Rightarrow> Inr (Some d)
      | None \<Rightarrow>
          (case e_published_parsed e of
             None \<Rightarrow> Inr None
           | Some t \<Rightarrow>
               if t = [] then Inr None
               else (case datetime_new (take 6 t) (Some 0) of
                       Inl err \<Rightarrow> Inl err
                     | Inr d \<Rightarrow> Inr (Some d))))"

text \<open>The body of the loop for one entry: \<open>Inr None\<close> is the \<open>continue\<close> of an undated entry.\<close>

definition rss_item :: "world \<Rightarrow> string \<Rightarrow> parsed_feed \<Rightarrow> rss_entry \<Rightarrow> py_error + item option" where
  "rss_item w url fp e =
     (case rss_dt_candidate w e of
        Inl err \<Rightarrow> Inl err
      | Inr None \<Rightarrow> Inr None
      | Inr (Some c) \<Rightarrow>
          (case to_dt w (Stamp c) of
             Inl err \<Rightarrow> Inl err
           | Inr c' \<Rightarrow>
               (case astimezone_utc (local_utcoffset w) c' of
                  Inl err \<Rightarrow> Inl err
                | Inr u \<Rightarrow>
                    Inr (Some \<lparr>item_type = ''rss'',
                               source = strip (case feed_title fp of
                                                 None \<Rightarrow> url | Some t \<Rightarrow> str_or t url),
                               title = str_or (strip (case e_title e of
                                                        None \<Rightarrow> [] | Some t \<Rightarrow> t))
                                              ''(untitled)'',
                               link = str_or (strip (case e_link e of
                                                       None \<Rightarrow> [] | Some l \<Rightarrow> l)) [],
                               dt = isoformat u\<rparr>))))"

fun rss_items :: "world \<Rightarrow> string \<Rightarrow> parsed_feed \<Rightarrow> rss_entry list \<Rightarrow> py_error + item list" where
  "rss_items w url fp [] = Inr []"
| "rss_items w url fp (e # es) =
     (case rss_item w url fp e of
        Inl err \<Rightarrow> Inl err
      | Inr r \<Rightarrow>
          (case rss_items w url fp es of
             Inl err \<Rightarrow> Inl err
           | Inr its \<Rightarrow> Inr (case r of None \<Rightarrow> its | Some it \<Rightarrow> it # its)))"

definition fetch_rss :: "world \<Rightarrow> string \<Rightarrow> py_error + item list" where
  "fetch_rss w url =
     (case feedparser_parse w url of
        Inl err \<Rightarrow> Inl err
      | Inr fp \<Rightarrow> rss_items w url fp (entries fp))"

subsection \<open>fetch_ics\<close>

text \<open>\<open>resp.raise_for_status()\<close>: a 4xx or 5xx status raises.\<close>

definition raise_for_status :: "http_response \<Rightarrow> py_error + unit" where
  "raise_for_status resp =
     (if 400 \<le> status_code resp \<and> status_code resp < 600
      then Inl (HTTPError (status_code resp)) else Inr ())"

text \<open>
  The normalisation of \<open>dtstart.dt\<close>: a naive datetime is tagged UTC, an aware one is
  converted to UTC, a date becomes noon UTC of that day.
\<close>

definition ics_dt_utc :: "world \<Rightarrow> dt_value \<Rightarrow> py_error + datetime" where
  "ics_dt_utc w v =
     (case v of
        DateTimeValue d0 \<Rightarrow>
          astimezone_utc (local_utcoffset w) (if tzinfo d0 = None then replace_tz_utc d0 else d0)
      | DateValue dd \<Rightarrow> datetime_new [d_year dd, d_month dd, d_day dd, 12, 0] (Some 0))"

text \<open>The body of the loop for one component of the calendar.\<close>

definition ics_item :: "world \<Rightarrow> string \<Rightarrow> component \<Rightarrow> py_error + item option" where
  "ics_item w url cpt =
     (if c_name cpt \<noteq> ''VEVENT'' then Inr None
      else
        let summary = (case c_summary cpt of None \<Rightarrow> ''(no title)'' | Some t \<Rightarrow> t)
        in case c_dtstart cpt of
             None \<Rightarrow> Inr None
           | Some dtstart \<Rightarrow>
               (case ics_dt_utc w dtstart of
                  Inl err \<Rightarrow> Inl err
                | Inr dt_utc \<Rightarrow>
                    Inr (Some \<lparr>item_type = ''ics'',
                               source = url,
                               title = summary,
                               link = (case c_url cpt of
                                         None \<Rightarrow> [] | Some u \<Rightarrow> if u \<noteq> [] then u else []),
                               dt = isoformat dt_utc\<rparr>)))"

fun ics_items :: "world \<Rightarrow> string \<Rightarrow> component list \<Rightarrow> py_error + item list" where
  "ics_items w url [] = Inr []"
| "ics_items w url (cpt # cpts) =
     (case ics_item w url cpt of
        Inl err \<Rightarrow> Inl err
      | Inr r \<Rightarrow>
          (case ics_items w url cpts of
             Inl err \<Rightarrow> Inl err
           | Inr its \<Rightarrow> Inr (case r of None \<Rightarrow> its | Some it \<Rightarrow> it # its)))"

definition fetch_ics :: "world \<Rightarrow> string \<Rightarrow> py_error + item list" where
  "fetch_ics w url =
     (case requests_get w url of
        Inl err \<Rightarrow> Inl err
      | Inr resp \<Rightarrow>
          (case raise_for_status resp of
             Inl err \<Rightarrow> Inl err
           | Inr _ \<Rightarrow>
               (case calendar_walk w (content resp) of
                  Inl err \<Rightarrow> Inl err
                | Inr cpts \<Rightarrow> ics_items w url cpts)))"

subsection \<open>render_markdown\<close>

text \<open>
  \<open>sorted(xs, key=key, reverse=True)\<close>: the list is reversed, sorted ascending by a
  stable sort, and reversed again.
\<close>

definition sorted_reverse :: "('a \<Rightarrow> 'k::linorder) \<Rightarrow> 'a list \<Rightarrow> 'a list" where
  "sorted_reverse key xs = rev (sort_key key (rev xs))"

text \<open>The em dash of the report, in UTF-8.\<close>

definition em_dash :: string where
  "em_dash = [CHR 0xE2, CHR 0x80, CHR 0x94]"

definition bullet_linked :: "string \<Rightarrow> string \<Rightarrow> string \<Rightarrow> string \<Rightarrow> string" where
  "bullet_linked dt_local t l src =
     ''- **'' @ dt_local @ ''** '' @ em_dash @ '' ['' @ t @ '']('' @ l @ '')  _'' @ src @ ''_''"

definition bullet_plain :: "string \<Rightarrow> string \<Rightarrow> string \<Rightarrow> string" where
  "bullet_plain dt_local t src =
     ''- **'' @ dt_local @ ''** '' @ em_dash @ '' '' @ t @ ''  _'' @ src @ ''_''"

text \<open>The line of one press release: the title is always written as a link.\<close>

definition rss_bullet :: "world \<Rightarrow> item \<Rightarrow> py_error + string" where
  "rss_bullet w it =
     (case fromisoformat (dt it) of
        None \<Rightarrow> Inl ValueError
      | Some d \<Rightarrow>
          (case iso_ny w d of
             Inl err \<Rightarrow> Inl err
           | Inr dt_local \<Rightarrow>
               Inr (bullet_linked dt_local (strip (replace_newlines (title it)))
                      (link it) (source it))))"

text \<open>The line of one calendar event: a link when \<open>link\<close> is non-empty, else plain text.\<close>

definition ics_bullet :: "world \<Rightarrow> item \<Rightarrow> py_error + string" where
  "ics_bullet w it =
     (case fromisoformat (dt it) of
        None \<Rightarrow> Inl ValueError
      | Some d \<Rightarrow>
          (case iso_ny w d of
             Inl err \<Rightarrow> Inl err
           | Inr dt_local \<Rightarrow>
               Inr (if link it \<noteq> []
                    then bullet_linked dt_local (strip (replace_newlines (title it)))
                           (link it) (source it)
                    else bullet_plain dt_local (strip (replace_newlines (title it)))
                           (source it))))"

text \<open>A \<open>for\<close> loop appending one line per item; the first exception ends it.\<close>

fun bullets :: "(item \<Rightarrow> py_error + string) \<Rightarrow> item list \<Rightarrow> py_error + string list" where
  "bullets f [] = Inr []"
| "bullets f (it # its) =
     (case f it of
        Inl err \<Rightarrow> Inl err
      | Inr b \<Rightarrow> (case bullets f its of Inl err \<Rightarrow> Inl err | Inr bs \<Rightarrow> Inr (b # bs)))"

definition rss_section_items :: "item list \<Rightarrow> item list" where
  "rss_section_items items = sorted_reverse dt (filter (\<lambda>i. item_type i = ''rss'') items)"

definition ics_section_items :: "item list \<Rightarrow> item list" where
  "ics_section_items items = sorted_reverse dt (filter (\<lambda>i. item_type i = ''ics'') items)"

definition press_section :: "world \<Rightarrow> item list \<Rightarrow> py_error + string list" where
  "press_section w items =
     (if filter (\<lambda>i. item_type i = ''rss'') items \<noteq> [] then
        (case bullets (rss_bullet w) (rss_section_items items) of
           Inl err \<Rightarrow> Inl err
         | Inr bs \<Rightarrow> Inr ([''## Press Releases (last 24h)'', []] @ bs @ [[]]))
      else Inr [''## Press Releases'', ''> No new items in the last 24 hours.'', []])"

definition events_section :: "world \<Rightarrow> item list \<Rightarrow> py_error + string list" where
  "events_section w items =
     (if filter (\<lambda>i. item_type i = ''ics'') items \<noteq> [] then
        (case bullets (ics_bullet w) (ics_section_items items) of
           Inl err \<Rightarrow> Inl err
         | Inr bs \<Rightarrow>
             Inr ([''## Hearings & Meetings (last 24h window start times)'', []] @ bs @ [[]]))
      else Inr [''## Hearings & Meetings'', ''> No events starting in the last 24 hours.'', []])"

text \<open>The list \<open>lines\<close> that \<open>render_markdown\<close> builds.\<close>

definition render_lines :: "world \<Rightarrow> item list \<Rightarrow> string \<Rightarrow> py_error + string list" where
  "render_lines w items report_date_str =
     (case press_section w items of
        Inl err \<Rightarrow> Inl err
      | Inr ps \<Rightarrow>
          (case events_section w items of
             Inl err \<Rightarrow> Inl err
           | Inr es \<Rightarrow>
               Inr ([''# Massachusetts Policy Feed '' @ em_dash @ '' '' @ report_date_str, []]
                    @ ps @ es)))"

definition render_markdown :: "world \<Rightarrow> item list \<Rightarrow> string \<Rightarrow> py_error + string" where
  "render_markdown w items report_date_str =
     (case render_lines w items report_date_str of
        Inl err \<Rightarrow> Inl err
      | Inr ls \<Rightarrow> Inr (join_lines ls))"

subsection \<open>main\<close>

text \<open>
  The \<open>--since\<close> argument after \<open>int(args.since[:-1])\<close>: hours when the argument ends
  with \<open>h\<close>, days otherwise.
\<close>

datatype since_spec = Hours int | Days int

definition since_of :: "datetime \<Rightarrow> since_spec \<Rightarrow> py_error + datetime" where
  "since_of now spec =
     (case spec of
        Hours n \<Rightarrow> add_datetime_timedelta now (timedelta_hours n) (- 1)
      | Days n \<Rightarrow> add_datetime_timedelta now (timedelta_days n) (- 1))"

text \<open>The text of an exception in a warning line (the class name stands for the message).\<close>

fun str_error :: "py_error \<Rightarrow> string" where
  "str_error TypeError = ''TypeError''"
| "str_error ValueError = ''ValueError''"
| "str_error OverflowError = ''date value out of range''"
| "str_error (HTTPError n) = fmt_d 1 n @ '' Error''"
| "str_error (Raised msg) = msg"

text \<open>
  The inner loop over the items of one source: each item within the window is appended
  to \<open>all_items\<close>. An exception leaves the loop with what was appended so far.
\<close>

fun window_loop :: "datetime \<Rightarrow> item list \<Rightarrow> item list \<Rightarrow> item list \<times> py_error option" where
  "window_loop since [] all_items = (all_items, None)"
| "window_loop since (it # its) all_items =
     (case fromisoformat (dt it) of
        None \<Rightarrow> (all_items, Some ValueError)
      | Some d \<Rightarrow>
          (case within_window d since of
             Inl err \<Rightarrow> (all_items, Some err)
           | Inr keep \<Rightarrow> window_loop since its (if keep then all_items @ [it] else all_items)))"

definition warn_line :: "string \<Rightarrow> string \<Rightarrow> py_error \<Rightarrow> string" where
  "warn_line label url err =
     ''[WARN] '' @ label @ '' fetch failed: '' @ url @ '': '' @ str_error err"

text \<open>
  The loop over the URLs of one kind; \<open>fetch\<close> is \<open>fetch_rss\<close> or \<open>fetch_ics\<close> and
  \<open>label\<close> the word in its warning. The state is \<open>all_items\<close> and the lines written to
  the error stream.
\<close>

fun collect ::
  "(string \<Rightarrow> py_error + item list) \<Rightarrow> string \<Rightarrow> datetime \<Rightarrow> string list
     \<Rightarrow> item list \<times> string list \<Rightarrow> item list \<times> string list" where
  "collect fetch label since [] st = st"
| "collect fetch label since (url # urls) (all_items, stderr) =
     (case fetch url of
        Inl err \<Rightarrow>
          collect fetch label since urls (all_items, stderr @ [warn_line label url err])
      | Inr its \<Rightarrow>
          (case window_loop since its all_items of
             (all_items', None) \<Rightarrow> collect fetch label since urls (all_items', stderr)
           | (all_items', Some err) \<Rightarrow>
               collect fetch label since urls (all_items', stderr @ [warn_line label url err])))"

record run_result =
  report :: string
  kept_items :: "item list"
  warnings :: "string list"

text \<open>
  \<open>main\<close>, from the parsed arguments and the loaded URL lists to the report text, the
  items kept and the warnings; \<open>Inl\<close> is an exception that ends the run.
\<close>

definition main ::
  "world \<Rightarrow> since_spec \<Rightarrow> string list \<Rightarrow> string list \<Rightarrow> string \<Rightarrow> py_error + run_result" where
  "main w spec rss_urls ics_urls report_date_str =
     (case since_of (now_utc w) spec of
        Inl err \<Rightarrow> Inl err
      | Inr since \<Rightarrow>
          let st1 = collect (fetch_rss w) ''RSS'' since rss_urls ([], []);
              st2 = collect (fetch_ics w) ''ICS'' since ics_urls st1
          in case render_markdown w (fst st2) report_date_str of
               Inl err \<Rightarrow> Inl err
             | Inr md \<Rightarrow> Inr \<lparr>report = md, kept_items = fst st2, warnings = snd st2\<rparr>)"

section \<open>The RSS-only program (src/main.py)\<close>

text \<open>
  \<open>iso_boston\<close>: the wall time in the zone \<open>tz.gettz("America/New_York")\<close> returns; when
  it returns \<open>None\<close>, \<open>astimezone(None)\<close> converts to the system's local zone.
\<close>

definition iso_boston :: "world \<Rightarrow> datetime \<Rightarrow> py_error + string" where
  "iso_boston w dt_utc =
     (case astimezone_zone (local_utcoffset w)
             (case zone_new_york w of None \<Rightarrow> local_utcoffset w | Some z \<Rightarrow> z) dt_utc of
        Inl err \<Rightarrow> Inl err
      | Inr l \<Rightarrow> Inr (strftime_ymd_hm l))"

text \<open>
  The loop of \<open>parse_dt\<close> over \<open>("published", "updated", "created")\<close>, with
  \<open>datetime.fromisoformat\<close> as the parser.
\<close>

fun parse_dt_text :: "world \<Rightarrow> string option list \<Rightarrow> datetime option" where
  "parse_dt_text w [] = None"
| "parse_dt_text w (None # ks) = parse_dt_text w ks"
| "parse_dt_text w (Some s # ks) =
     (case text_fromisoformat w s of
        Inr d \<Rightarrow> Some d
      | Inl _ \<Rightarrow> parse_dt_text w ks)"

definition parse_dt :: "world \<Rightarrow> rss_entry \<Rightarrow> py_error + datetime option" where
  "parse_dt w entry =
     (case parse_dt_text w [e_published entry, e_updated entry, e_created entry] of
        Some d \<Rightarrow> Inr (Some d)
      | None \<Rightarrow>
          (case e_published_parsed entry of
             Some (x # xs) \<Rightarrow>
               (case datetime_new (take 6 (x # xs)) (Some 0) of
                  Inl err \<Rightarrow> Inl err
                | Inr d \<Rightarrow> Inr (Some d))
           | _ \<Rightarrow>
               (case e_updated_parsed entry of
                  Some (x # xs) \<Rightarrow>
                    (case datetime_new (take 6 (x # xs)) (Some 0) of
                       Inl err \<Rightarrow> Inl err
                     | Inr d \<Rightarrow> Inr (Some d))
                | _ \<Rightarrow> Inr None)))"

text \<open>The dictionaries this program collects; \<open>b_when\<close> is a UTC datetime.\<close>

record bill =
  b_when :: datetime
  b_title :: string
  b_link :: string
  b_source :: string

text \<open>\<open>sub in s\<close> and the ASCII part of \<open>s.lower()\<close>, for the keyword filter.\<close>

fun contains :: "string \<Rightarrow> string \<Rightarrow> bool" where
  "contains sub [] = (sub = [])"
| "contains sub (c # cs) = (take (length sub) (c # cs) = sub \<or> contains sub cs)"

definition lower :: "string \<Rightarrow> string" where
  "lower s =
     map (\<lambda>c. let n = (of_char c :: nat) in if 65 \<le> n \<and> n \<le> 90 then char_of (n + 32) else c) s"

text \<open>
  The body of the loop for one entry: \<open>Inr None\<close> is a \<open>continue\<close>. The keyword filter
  is \<open>("introduc" in text_for_filter) or True\<close>.
\<close>

definition bill_of_entry ::
  "world \<Rightarrow> datetime \<Rightarrow> string \<Rightarrow> rss_entry \<Rightarrow> py_error + bill option" where
  "bill_of_entry w since src e =
     (case parse_dt w e of
        Inl err \<Rightarrow> Inl err
      | Inr None \<Rightarrow> Inr None
      | Inr (Some d0) \<Rightarrow>
          (case astimezone_utc (local_utcoffset w)
                  (if tzinfo d0 = None then replace_tz_utc d0 else d0) of
             Inl err \<Rightarrow> Inl err
           | Inr dt_utc \<Rightarrow>
               (case dt_lt dt_utc since of
                  Inl err \<Rightarrow> Inl err
                | Inr True \<Rightarrow> Inr None
                | Inr False \<Rightarrow>
                    let t = str_or (strip (case e_title e of None \<Rightarrow> [] | Some x \<Rightarrow> x))
                                   ''(no title)'';
                        l = strip (case e_link e of None \<Rightarrow> [] | Some x \<Rightarrow> x);
                        text_for_filter =
                          lower (t @ '' '' @ (case e_summary e of None \<Rightarrow> [] | Some x \<Rightarrow> x));
                        keep = (contains ''introduc'' text_for_filter \<or> True)
                    in if \<not> keep then Inr None
                       else Inr (Some \<lparr>b_when = dt_utc, b_title = t, b_link = l,
                                       b_source = src\<rparr>))))"

fun bills_of_entries ::
  "world \<Rightarrow> datetime \<Rightarrow> string \<Rightarrow> rss_entry list \<Rightarrow> py_error + bill list" where
  "bills_of_entries w since src [] = Inr []"
| "bills_of_entries w since src (e # es) =
     (case bill_of_entry w since src e of
        Inl err \<Rightarrow> Inl err
      | Inr r \<Rightarrow>
          (case bills_of_entries w since src es of
             Inl err \<Rightarrow> Inl err
           | Inr bs \<Rightarrow> Inr (case r of None \<Rightarrow> bs | Some b \<Rightarrow> b # bs)))"

text \<open>
  The loop over the URLs. No exception is caught here: the first one ends the run.
\<close>

fun bills_of_urls :: "world \<Rightarrow> datetime \<Rightarrow> string list \<Rightarrow> py_error + bill list" where
  "bills_of_urls w since [] = Inr []"
| "bills_of_urls w since (url # urls) =
     (case feedparser_parse w url of
        Inl err \<Rightarrow> Inl err
      | Inr fp \<Rightarrow>
          (case bills_of_entries w since
                  (if feed_present fp
                   then strip (case feed_title fp of None \<Rightarrow> url | Some t \<Rightarrow> str_or t url)
                   else url)
                  (entries fp) of
             Inl err \<Rightarrow> Inl err
           | Inr bs \<Rightarrow>
               (case bills_of_urls w since urls of
                  Inl err \<Rightarrow> Inl err
                | Inr rest \<Rightarrow> Inr (bs @ rest))))"

text \<open>\<open>items.sort(key=lambda x: x["when"], reverse=True)\<close>; all \<open>when\<close> values are UTC.\<close>

definition sort_bills :: "bill list \<Rightarrow> bill list" where
  "sort_bills bs = sorted_reverse (\<lambda>x. dt_key (b_when x)) bs"

definition bill_line :: "world \<Rightarrow> bill \<Rightarrow> py_error + string" where
  "bill_line w b =
     (case iso_boston w (b_when b) of
        Inl err \<Rightarrow> Inl err
      | Inr t \<Rightarrow> Inr (bullet_linked t (b_title b) (b_link b) (b_source b)))"

fun bill_lines :: "world \<Rightarrow> bill list \<Rightarrow> py_error + string list" where
  "bill_lines w [] = Inr []"
| "bill_lines w (b # bs) =
     (case bill_line w b of
        Inl err \<Rightarrow> Inl err
      | Inr l \<Rightarrow> (case bill_lines w bs of Inl err \<Rightarrow> Inl err | Inr ls \<Rightarrow> Inr (l # ls)))"

text \<open>
  \<open>main\<close> of the RSS-only program, from \<open>WINDOW_HOURS\<close>, the configured URLs and the
  date of the title to the lines of the report. \<open>Inr None\<close> is the early exit when no
  URL is configured.
\<close>

definition main_rss_only ::
  "world \<Rightarrow> int \<Rightarrow> string list \<Rightarrow> string \<Rightarrow> py_error + string list option" where
  "main_rss_only w WINDOW_HOURS urls date_title =
     (case add_datetime_timedelta (now_utc w) (timedelta_hours WINDOW_HOURS) (- 1) of
        Inl err \<Rightarrow> Inl err
      | Inr since \<Rightarrow>
          if urls = [] then Inr None
          else
            (case bills_of_urls w since urls of
               Inl err \<Rightarrow> Inl err
             | Inr bs \<Rightarrow>
                 (case bill_lines w (sort_bills bs) of
                    Inl err \<Rightarrow> Inl err
                  | Inr ls \<Rightarrow>
                      Inr (Some ([''# Massachusetts Bills Introduced '' @ em_dash @ '' ''
                                    @ date_title, []]
                                 @ (if bs = []
                                    then [''> No new items found in the last 24 hours.'']
                                    else ls)
                                 @ [[]])))))"

section \<open>Auxiliary definitions for the proofs\<close>

text \<open>The \<open>w\<close> low decimal digits of \<open>n\<close>: what \<open>%0wd\<close> writes for \<open>n < 10 ^ w\<close>.\<close>

fun fixed :: "nat \<Rightarrow> nat \<Rightarrow> string" where
  "fixed 0 n = []"
| "fixed (Suc w) n = fixed w (n div 10) @ [digit_char (n mod 10)]"


text \<open>
  The successfully parsed values among a list of optional text fields, in order; the
  reading of a fallback chain as "the first field that parses".
\<close>

definition parsed_values :: "(string \<Rightarrow> py_error + datetime) \<Rightarrow> string option list \<Rightarrow> datetime list" where
  "parsed_values parse texts =
     List.map_filter
       (\<lambda>k. case k of
               None \<Rightarrow> None
             | Some s \<Rightarrow> (case parse s of Inl _ \<Rightarrow> None | Inr d \<Rightarrow> Some d))
       texts"

text \<open>The first of them, if any.\<close>

definition first_parsed :: "(string \<Rightarrow> py_error + datetime) \<Rightarrow> string option list \<Rightarrow> datetime option" where
  "first_parsed parse texts = (case parsed_values parse texts of [] \<Rightarrow> None | d # _ \<Rightarrow> Some d)"

text \<open>
  A structured time tuple read as UTC: the datetime of its first six components,
  tagged UTC; \<open>Inl\<close> when they name no valid date and time.
\<close>

definition tuple_as_utc :: "int list \<Rightarrow> py_error + datetime option" where
  "tuple_as_utc t =
     (case datetime_new (take 6 t) (Some 0) of Inl err \<Rightarrow> Inl err | Inr d \<Rightarrow> Inr (Some d))"

text \<open>
  An item whose \<open>dt\<close> string is what \<open>isoformat()\<close> writes for a UTC datetime; the
  adapters store no other.
\<close>

definition stored_utc :: "item \<Rightarrow> bool" where
  "stored_utc it =
     (case fromisoformat (dt it) of
        None \<Rightarrow> False
      | Some d \<Rightarrow> tzinfo d = Some 0 \<and> isoformat d = dt it)"




text \<open>
  The window filter as a predicate on a stored item: its timestamp is not before
  \<open>since\<close>. \<open>kept_of\<close> is what one source contributes to a run: nothing when its
  adapter raises, else its items within the window.
\<close>

definition in_window :: "datetime \<Rightarrow> item \<Rightarrow> bool" where
  "in_window since it =
     (case fromisoformat (dt it) of None \<Rightarrow> False | Some d \<Rightarrow> dt_key since \<le> dt_key d)"

definition kept_of :: "(string \<Rightarrow> py_error + item list) \<Rightarrow> datetime \<Rightarrow> string \<Rightarrow> item list" where
  "kept_of fetch since url =
     (case fetch url of Inl _ \<Rightarrow> [] | Inr its \<Rightarrow> filter (in_window since) its)"

text \<open>
  Every \<open>datetime\<close> object of Python is valid. The libraries return such objects: the
  datetimes that the free-text parser returns and those in the \<open>DTSTART\<close> of a parsed
  calendar are valid.
\<close>

definition valid_world :: "world \<Rightarrow> bool" where
  "valid_world w =
     ((\<forall>s d. dtparse_parse w s = Inr d \<longrightarrow> valid_datetime d) \<and>
      (\<forall>body cpts cpt d. calendar_walk w body = Inr cpts \<longrightarrow> cpt \<in> set cpts
          \<longrightarrow> c_dtstart cpt = Some (DateTimeValue d) \<longrightarrow> valid_datetime d))"

section \<open>Example data\<close>

text \<open>
  The rule of \<open>America/New_York\<close> in the time zone database for 2007 and later, at a
  UTC datetime: UTC-4 from 07:00 UTC on the second Sunday of March to 06:00 UTC on the
  first Sunday of November, UTC-5 otherwise. Weekdays count from Monday = 0.
\<close>

definition weekday :: "int \<Rightarrow> int \<Rightarrow> int \<Rightarrow> int" where
  "weekday y m d = (ymd_to_ord y m d + 6) mod 7"

definition us_eastern :: "datetime \<Rightarrow> int" where
  "us_eastern u =
     (let start_day = 8 + (6 - weekday (year u) 3 8) mod 7;
          end_day = 1 + (6 - weekday (year u) 11 1) mod 7;
          k = (month u, day u, hour u)
      in if (3, start_day, 7) \<le> k \<and> k < (11, end_day, 6) then - 14400 else - 18000)"

text \<open>A strict parser of ISO 8601 text, standing in for the free-text parsers.\<close>

definition iso_parser :: "string \<Rightarrow> py_error + datetime" where
  "iso_parser s = (case fromisoformat s of None \<Rightarrow> Inl ValueError | Some d \<Rightarrow> Inr d)"

definition blank_entry :: rss_entry where
  "blank_entry =
     \<lparr>e_published = None, e_updated = None, e_created = None, e_published_parsed = None,
      e_updated_parsed = None, e_title = None, e_link = None, e_summary = None\<rparr>"

text \<open>
  Three entries: one whose \<open>published\<close> text does not parse and whose \<open>updated\<close> text
  does, one with only the structured tuple, one with no date at all.
\<close>

definition entry_updated :: rss_entry where
  "entry_updated =
     blank_entry\<lparr>e_published := Some ''yesterday'',
                 e_updated := Some ''2024-03-15T09:00:00+00:00'',
                 e_published_parsed := Some [2024, 3, 14, 8, 0, 0, 3, 74, 0],
                 e_title := Some ''Budget hearing'',
                 e_link := Some ''https://example.org/a''\<rparr>"

definition entry_tuple :: rss_entry where
  "entry_tuple =
     blank_entry\<lparr>e_published := Some ''yesterday'',
                 e_published_parsed := Some [2024, 3, 14, 8, 0, 0, 3, 74, 0],
                 e_title := Some ''Transit update''\<rparr>"

definition entry_undated :: rss_entry where
  "entry_undated = blank_entry\<lparr>e_published := Some ''soon'', e_title := Some ''Undated''\<rparr>"

text \<open>An entry whose only date is text without a time zone.\<close>

definition entry_naive :: rss_entry where
  "entry_naive =
     blank_entry\<lparr>e_published := Some ''2024-03-15T10:00:00'', e_title := Some ''Naive''\<rparr>"

definition example_feed :: parsed_feed where
  "example_feed =
     \<lparr>bozo = False, feed_present = True, feed_title = Some ''Senate Press'',
      entries = [entry_updated, entry_undated, entry_tuple]\<rparr>"

definition naive_feed :: parsed_feed where
  "naive_feed = \<lparr>bozo = False, feed_present = True, feed_title = Some ''Senate Press'', entries = [entry_naive]\<rparr>"

text \<open>
  Calendar components: a whole-day event, an event with a naive start and a link, an
  event with an empty summary, an event without \<open>DTSTART\<close>, and a component that is no
  event.
\<close>

definition blank_event :: component where
  "blank_event =
     \<lparr>c_name = ''VEVENT'', c_summary = None, c_dtstart = None, c_url = None, c_organizer = None\<rparr>"

definition event_all_day :: component where
  "event_all_day =
     blank_event\<lparr>c_summary := Some ''Committee hearing'',
                 c_dtstart := Some (DateValue \<lparr>d_year = 2024, d_month = 3, d_day = 15\<rparr>)\<rparr>"

definition event_naive :: component where
  "event_naive =
     blank_event\<lparr>c_summary := Some ''Floor session'',
                 c_dtstart := Some (DateTimeValue
                   \<lparr>year = 2024, month = 3, day = 15, hour = 10, minute = 0, second = 0,
                    microsecond = 0, tzinfo = None\<rparr>),
                 c_url := Some ''https://example.org/floor''\<rparr>"

definition event_blank_summary :: component where
  "event_blank_summary =
     blank_event\<lparr>c_summary := Some [],
                 c_dtstart := Some (DateValue \<lparr>d_year = 2024, d_month = 3, d_day = 15\<rparr>)\<rparr>"

definition event_no_start :: component where
  "event_no_start = blank_event\<lparr>c_summary := Some ''No start''\<rparr>"

definition example_calendar :: "component list" where
  "example_calendar =
     [blank_event\<lparr>c_name := ''VCALENDAR''\<rparr>, event_all_day, event_no_start, event_naive]"

text \<open>
  A world at 2024-03-15 12:00 UTC on a machine whose local zone is UTC-4, with one
  reachable feed, one feed of text dates without zone, one reachable calendar, and
  every other URL unreachable.
\<close>

definition example_now :: datetime where
  "example_now =
     \<lparr>year = 2024, month = 3, day = 15, hour = 12, minute = 0, second = 0, microsecond = 0,
      tzinfo = Some 0\<rparr>"

definition example_world :: world where
  "example_world =
     \<lparr>now_utc = example_now,
      feedparser_parse =
        (\<lambda>url. if url = ''https://good.example/rss'' then Inr example_feed
               else if url = ''https://naive.example/rss'' then Inr naive_feed
               else Inl (Raised ''unreachable'')),
      requests_get =
        (\<lambda>url. if url = ''https://good.example/ics''
               then Inr \<lparr>status_code = 200, content = ''BEGIN:VCALENDAR''\<rparr>
               else if url = ''https://gone.example/ics''
               then Inr \<lparr>status_code = 404, content = []\<rparr>
               else Inl (Raised ''unreachable'')),
      calendar_walk =
        (\<lambda>body. if body = ''BEGIN:VCALENDAR'' then Inr example_calendar else Inl ValueError),
      dtparse_parse = iso_parser,
      text_fromisoformat = iso_parser,
      local_utcoffset = (\<lambda>_. - 14400),
      zone_new_york = Some us_eastern\<rparr>"




text \<open>Items as the adapters store them, for the renderer and the window filter.\<close>

definition item_hearing :: item where
  "item_hearing =
     \<lparr>item_type = ''ics'', source = ''https://good.example/ics'', title = ''Committee hearing'',
      link = [], dt = ''2024-03-15T12:00:00+00:00''\<rparr>"

definition item_session :: item where
  "item_session =
     \<lparr>item_type = ''ics'', source = ''https://good.example/ics'', title = ''Floor session'',
      link = ''https://example.org/floor'', dt = ''2024-03-15T10:00:00+00:00''\<rparr>"

definition item_budget :: item where
  "item_budget =
     \<lparr>item_type = ''rss'', source = ''Senate Press'', title = ''Budget hearing'',
      link = ''https://example.org/a'', dt = ''2024-03-15T09:00:00+00:00''\<rparr>"

definition item_transit :: item where
  "item_transit =
     \<lparr>item_type = ''rss'', source = ''Senate Press'', title = ''Transit update'',
      link = [], dt = ''2024-03-14T08:00:00+00:00''\<rparr>"

text \<open>Items at the start of the 24 hour window of the example, and one second before it.\<close>

definition item_boundary :: item where
  "item_boundary = item_budget\<lparr>title := ''At the boundary'', dt := ''2024-03-14T12:00:00+00:00''\<rparr>"

definition item_too_old :: item where
  "item_too_old = item_budget\<lparr>title := ''One second older'', dt := ''2024-03-14T11:59:59+00:00''\<rparr>"

text \<open>
  A feed with an entry one second before the start of that window and an entry at its
  start, and the world of the example with this feed.
\<close>

definition entry_too_old :: rss_entry where
  "entry_too_old =
     blank_entry\<lparr>e_published := Some ''2024-03-14T11:59:59+00:00'',
                 e_title := Some ''One second older'',
                 e_link := Some ''https://example.org/a''\<rparr>"

definition entry_boundary :: rss_entry where
  "entry_boundary =
     blank_entry\<lparr>e_published := Some ''2024-03-14T12:00:00+00:00'',
                 e_title := Some ''At the boundary'',
                 e_link := Some ''https://example.org/a''\<rparr>"

definition boundary_feed :: parsed_feed where
  "boundary_feed =
     \<lparr>bozo = False, feed_present = True, feed_title = Some ''Senate Press'',
      entries = [entry_too_old, entry_boundary]\<rparr>"

definition boundary_world :: world where
  "boundary_world =
     example_world
       \<lparr>feedparser_parse :=
          (\<lambda>url. if url = ''https://edge.example/rss'' then Inr boundary_feed
                 else feedparser_parse example_world url)\<rparr>"

section \<open>Decimal fields and ISO 8601 strings\<close>

lemma length_fixed [simp]: "length (fixed w n) = w"
  by (induction w arbitrary: n) auto

lemma digit_char_0: "digit_char 0 = CHR ''0''"
  by code_simp

lemma fixed_zero: "fixed w 0 = replicate w (CHR ''0'')"
  by (induction w) (auto simp: digit_char_0 replicate_append_same)

lemma length_dec: "n < 10 ^ w \<Longrightarrow> 0 < w \<Longrightarrow> length (dec n) \<le> w"
proof (induction n arbitrary: w rule: dec.induct)
  case (1 n)
  show ?case
  proof (cases "n < 10")
    case True
    then show ?thesis using 1(3) by (simp add: dec.simps)
  next
    case False
    then obtain v where w: "w = Suc v" using 1(3) by (cases w) auto
    with False 1(2) have v: "0 < v" by (cases v) auto
    from 1(2) w have "n div 10 < 10 ^ v" by (simp add: less_mult_imp_div_less mult.commute)
    with 1(1)[OF False this v] False w show ?thesis by (simp add: dec.simps[of n])
  qed
qed

lemma zfill_dec: "n < 10 ^ w \<Longrightarrow> 0 < w \<Longrightarrow> zfill w (dec n) = fixed w n"
proof (induction n arbitrary: w rule: dec.induct)
  case (1 n)
  obtain v where w: "w = Suc v" using 1(3) by (cases w) auto
  show ?case
  proof (cases "n < 10")
    case True
    then show ?thesis using w by (simp add: dec.simps zfill_def fixed_zero)
  next
    case False
    with 1(2) w have v: "0 < v" by (cases v) auto
    from 1(2) w have lt: "n div 10 < 10 ^ v" by (simp add: less_mult_imp_div_less mult.commute)
    have len: "length (dec (n div 10)) \<le> v" using length_dec[OF lt v] .
    have "zfill v (dec (n div 10)) = fixed v (n div 10)" using 1(1)[OF False lt v] .
    then show ?thesis using False w len by (simp add: dec.simps[of n] zfill_def Suc_diff_le)
  qed
qed

lemma fmt_d_fixed: "0 \<le> i \<Longrightarrow> i < 10 ^ w \<Longrightarrow> 0 < w \<Longrightarrow> fmt_d w i = fixed w (nat i)"
proof -
  assume a: "0 \<le> i" "i < 10 ^ w" "0 < w"
  then have "nat i < 10 ^ w" by (metis nat_less_iff of_nat_numeral of_nat_power)
  with a show ?thesis by (simp add: fmt_d_def zfill_dec)
qed

lemma of_char_digit: "n < 10 \<Longrightarrow> of_char (digit_char n) = 48 + n"
  by (simp add: digit_char_def)

lemma digit_char_less: "m < 10 \<Longrightarrow> n < 10 \<Longrightarrow> digit_char m < digit_char n \<longleftrightarrow> m < n"
  by (simp add: less_char_def of_char_digit)

lemma digit_char_eq: "m < 10 \<Longrightarrow> n < 10 \<Longrightarrow> digit_char m = digit_char n \<longleftrightarrow> m = n"
  by (metis of_char_digit add_left_cancel)

lemma digit_val_digit: "n < 10 \<Longrightarrow> digit_val (digit_char n) = Some (int n)"
  by (simp add: digit_val_def of_char_digit)

lemma digits_val_append:
  "digits_val acc (xs @ ys) = (case digits_val acc xs of None \<Rightarrow> None | Some v \<Rightarrow> digits_val v ys)"
  by (induction xs arbitrary: acc) (auto split: option.splits)

lemma digits_val_fixed: "digits_val acc (fixed w n) = Some (acc * 10 ^ w + int (n mod 10 ^ w))"
proof (induction w arbitrary: n)
  case 0
  then show ?case by simp
next
  case (Suc w)
  have "n mod (10 * 10 ^ w) = 10 * (n div 10 mod 10 ^ w) + n mod 10"
    by (simp add: mod_mult2_eq)
  then show ?case using Suc by (simp add: digits_val_append digit_val_digit algebra_simps)
qed

lemma parse_int_fixed: "0 < w \<Longrightarrow> n < 10 ^ w \<Longrightarrow> parse_int (fixed w n) = Some (int n)"
proof -
  assume a: "0 < w" "n < 10 ^ w"
  then have "fixed w n \<noteq> []" by (metis length_fixed list.size(3) less_nat_zero_code)
  with a show ?thesis by (simp add: parse_int_def digits_val_fixed)
qed

lemma less_append_same_length:
  "length xs = length ys \<Longrightarrow> (xs @ us < ys @ vs) \<longleftrightarrow> (xs < ys \<or> (xs = ys \<and> us < vs))" for xs :: "'a::linorder list"
  by (induction xs ys rule: list_induct2) auto

lemma fixed_eq: "a < 10 ^ w \<Longrightarrow> b < 10 ^ w \<Longrightarrow> fixed w a = fixed w b \<longleftrightarrow> a = b"
proof
  assume lt: "a < 10 ^ w" "b < 10 ^ w" and eq: "fixed w a = fixed w b"
  have "digits_val 0 (fixed w a) = digits_val 0 (fixed w b)" using eq by simp
  then show "a = b" using lt by (simp add: digits_val_fixed)
qed simp

lemma div10_less: "(a::nat) < b \<longleftrightarrow> (a div 10 < b div 10 \<or> (a div 10 = b div 10 \<and> a mod 10 < b mod 10))"
proof -
  define qa ra qb rb where defs: "qa = a div 10" "ra = a mod 10" "qb = b div 10" "rb = b mod 10"
  have "a = 10 * qa + ra" "b = 10 * qb + rb" "ra < 10" "rb < 10" by (simp_all add: defs)
  then have "a < b \<longleftrightarrow> (qa < qb \<or> (qa = qb \<and> ra < rb))" by arith
  then show ?thesis by (simp add: defs)
qed

lemma fixed_less: "a < 10 ^ w \<Longrightarrow> b < 10 ^ w \<Longrightarrow> fixed w a < fixed w b \<longleftrightarrow> a < b"
proof (induction w arbitrary: a b)
  case 0
  then show ?case by simp
next
  case (Suc w)
  then have lt: "a div 10 < 10 ^ w" "b div 10 < 10 ^ w" by (simp_all add: less_mult_imp_div_less mult.commute)
  have "fixed (Suc w) a < fixed (Suc w) b \<longleftrightarrow>
        (a div 10 < b div 10 \<or> (a div 10 = b div 10 \<and> a mod 10 < b mod 10))"
    by (simp add: less_append_same_length Suc.IH[OF lt] fixed_eq[OF lt] digit_char_less)
  then show ?case using div10_less[of a b] by simp
qed


lemma block_less:
  assumes "a < 10 ^ w" "b < 10 ^ w"
  shows "(fixed w a @ c # xs < fixed w b @ c # ys) \<longleftrightarrow> a < b \<or> (a = b \<and> xs < ys)"
  using assms by (simp add: less_append_same_length fixed_less fixed_eq)

lemma format_offset_0: "format_offset 0 = ''+00:00''"
  by code_simp

lemma isoformat_utc:
  assumes "is_utc d"
  shows "isoformat d =
     fixed 4 (nat (year d)) @ CHR ''-'' # fixed 2 (nat (month d)) @ CHR ''-'' # fixed 2 (nat (day d))
     @ CHR ''T'' # fixed 2 (nat (hour d)) @ CHR '':'' # fixed 2 (nat (minute d)) @ CHR '':'' #
     fixed 2 (nat (second d)) @
     (if microsecond d \<noteq> 0 then CHR ''.'' # fixed 6 (nat (microsecond d)) else []) @ ''+00:00''"
proof -
  have m: "month d < 100" "day d < 100" using assms
    by (auto simp: is_utc_def valid_datetime_def days_in_month_def month_lengths_def nth_Cons' split: if_splits)
  show ?thesis using assms m
    by (simp add: is_utc_def valid_datetime_def isoformat_def fmt_d_fixed format_offset_0)
qed


lemma utc_bounds:
  assumes "is_utc d"
  shows "nat (year d) < 10 ^ 4" "nat (month d) < 10 ^ 2" "nat (day d) < 10 ^ 2"
        "nat (hour d) < 10 ^ 2" "nat (minute d) < 10 ^ 2" "nat (second d) < 10 ^ 2"
        "nat (microsecond d) < 10 ^ 6"
        "0 \<le> year d" "0 \<le> month d" "0 \<le> day d" "0 \<le> hour d" "0 \<le> minute d"
        "0 \<le> second d" "0 \<le> microsecond d"
  using assms
  by (auto simp: is_utc_def valid_datetime_def days_in_month_def month_lengths_def nth_Cons' split: if_splits)

lemma tail_less:
  assumes "0 \<le> x" "0 \<le> y" "nat x < 10 ^ 6" "nat y < 10 ^ 6"
  shows "((if x \<noteq> 0 then CHR ''.'' # fixed 6 (nat x) else []) @ ''+00:00''
          < (if y \<noteq> 0 then CHR ''.'' # fixed 6 (nat y) else []) @ ''+00:00'') \<longleftrightarrow> x < y"
  using assms by (auto simp: less_append_same_length fixed_less fixed_eq less_char_def)

lemma isoformat_less:
  assumes a: "is_utc a" and b: "is_utc b"
  shows "isoformat a < isoformat b \<longleftrightarrow> dt_key a < dt_key b"
proof -
  note ba = utc_bounds[OF a] and bb = utc_bounds[OF b]
  have n: "\<And>x y :: int. 0 \<le> x \<Longrightarrow> 0 \<le> y \<Longrightarrow> (nat x < nat y) = (x < y)"
          "\<And>x y :: int. 0 \<le> x \<Longrightarrow> 0 \<le> y \<Longrightarrow> (nat x = nat y) = (x = y)"
    by auto
  have "isoformat a < isoformat b \<longleftrightarrow>
     (year a < year b \<or> year a = year b \<and>
      (month a < month b \<or> month a = month b \<and>
       (day a < day b \<or> day a = day b \<and>
        (hour a < hour b \<or> hour a = hour b \<and>
         (minute a < minute b \<or> minute a = minute b \<and>
          (second a < second b \<or> second a = second b \<and> microsecond a < microsecond b))))))"
    unfolding isoformat_utc[OF a] isoformat_utc[OF b]
    by (simp only: block_less[OF ba(1) bb(1)] block_less[OF ba(2) bb(2)] block_less[OF ba(3) bb(3)]
          block_less[OF ba(4) bb(4)] block_less[OF ba(5) bb(5)]
          less_append_same_length[of "fixed 2 (nat (second a))" "fixed 2 (nat (second b))", simplified]
          fixed_less[OF ba(6) bb(6)] fixed_eq[OF ba(6) bb(6)] tail_less[OF ba(14) bb(14) ba(7) bb(7)]
          n[OF ba(8) bb(8)] n[OF ba(9) bb(9)] n[OF ba(10) bb(10)] n[OF ba(11) bb(11)] n[OF ba(12) bb(12)]
          n[OF ba(13) bb(13)] n[OF ba(14) bb(14)])
  also have "\<dots> \<longleftrightarrow> dt_key a < dt_key b"
    unfolding dt_key_def less_prod_simp by auto
  finally show ?thesis .
qed

lemma fromisoformat_isoformat:
  assumes "is_utc d"
  shows "fromisoformat (isoformat d) = Some d"
proof -
  note b = utc_bounds[OF assms]
  have p: "parse_int (fixed 4 (nat (year d))) = Some (year d)"
          "parse_int (fixed 2 (nat (month d))) = Some (month d)"
          "parse_int (fixed 2 (nat (day d))) = Some (day d)"
          "parse_int (fixed 2 (nat (hour d))) = Some (hour d)"
          "parse_int (fixed 2 (nat (minute d))) = Some (minute d)"
          "parse_int (fixed 2 (nat (second d))) = Some (second d)"
          "parse_int (fixed 6 (nat (microsecond d))) = Some (microsecond d)"
    using b by (simp_all add: parse_int_fixed)
  have z: "parse_int ''000000'' = Some 0" by code_simp
  have tz: "parse_offset ''+00:00'' = Some (Some 0)" by code_simp
  have e: "parse_offset [] = Some None" by (simp add: parse_offset_def)
  have v: "valid_datetime d" "tzinfo d = Some 0" using assms by (simp_all add: is_utc_def)
  have r: "valid_datetime \<lparr>year = year d, month = month d, day = day d, hour = hour d,
            minute = minute d, second = second d, microsecond = microsecond d, tzinfo = Some 0\<rparr>"
    using v(1) by (simp add: valid_datetime_def)
  show ?thesis
  proof (cases "microsecond d = 0")
    case True
    then show ?thesis
      unfolding isoformat_utc[OF assms] fromisoformat_def
      using v(2) r by (simp add: nth_append p z tz Let_def)
  next
    case False
    then show ?thesis
      unfolding isoformat_utc[OF assms] fromisoformat_def
      using v(2) r by (simp add: nth_append p z tz Let_def)
  qed
qed

section \<open>Datetime arithmetic\<close>

lemma normalize_pair_props:
  assumes "0 < f" "normalize_pair hi lo f = (hi', lo')"
  shows "0 \<le> lo'" "lo' < f" "hi' * f + lo' = hi * f + lo"
  using assms by (auto simp: normalize_pair_def split: if_splits simp: algebra_simps)

lemma days_in_month_range: "1 \<le> m \<Longrightarrow> m \<le> 12 \<Longrightarrow> 28 \<le> days_in_month y m \<and> days_in_month y m \<le> 31"
proof -
  assume "1 \<le> m" "m \<le> 12"
  then have "m = 1 \<or> m = 2 \<or> m = 3 \<or> m = 4 \<or> m = 5 \<or> m = 6 \<or> m = 7 \<or> m = 8
               \<or> m = 9 \<or> m = 10 \<or> m = 11 \<or> m = 12" by arith
  then show ?thesis by (auto simp: days_in_month_def month_lengths_def)
qed

lemma normalize_y_m_d_valid:
  assumes "1 \<le> m" "m \<le> 12" "0 \<le> d" "d \<le> days_in_month y m + 1"
    and "normalize_y_m_d y m d = Inr (y', m', d')"
  shows "1 \<le> y' \<and> y' \<le> 9999 \<and> 1 \<le> m' \<and> m' \<le> 12 \<and> 1 \<le> d' \<and> d' \<le> days_in_month y' m'"
proof -
  have r: "\<And>k. 1 \<le> k \<Longrightarrow> k \<le> 12 \<Longrightarrow> 1 \<le> days_in_month y k" using days_in_month_range[of _ y] by (meson dual_order.trans one_le_numeral)
  have r1: "days_in_month (y + 1) 1 = 31" "days_in_month (y - 1) 12 = 31" by (simp_all add: days_in_month_def month_lengths_def)
  show ?thesis using assms r[of "m - 1"] r[of "m + 1"] r[of m] r1
    by (auto simp: normalize_y_m_d_def Let_def split: if_splits)
qed


lemma add_datetime_timedelta_props:
  assumes "add_datetime_timedelta x delta f = Inr r"
  obtains d1 where
    "normalize_y_m_d (year x) (month x) d1 = Inr (year r, month r, day r)"
    "(((d1 * 24 + hour r) * 60 + minute r) * 60 + second r) * 1000000 + microsecond r
       = ((((day x + td_days delta * f) * 24 + hour x) * 60 + minute x) * 60
           + second x + td_seconds delta * f) * 1000000 + microsecond x + td_microseconds delta * f"
    "0 \<le> hour r" "hour r < 24" "0 \<le> minute r" "minute r < 60"
    "0 \<le> second r" "second r < 60" "0 \<le> microsecond r" "microsecond r < 1000000"
    "tzinfo r = tzinfo x"
proof -
  obtain s1 us where p1: "normalize_pair (second x + td_seconds delta * f)
      (microsecond x + td_microseconds delta * f) 1000000 = (s1, us)" by fastforce
  obtain mi1 s where p2: "normalize_pair (minute x) s1 60 = (mi1, s)" by fastforce
  obtain h1 mi where p3: "normalize_pair (hour x) mi1 60 = (h1, mi)" by fastforce
  obtain d1 h where p4: "normalize_pair (day x + td_days delta * f) h1 24 = (d1, h)" by fastforce
  from assms p1 p2 p3 p4 obtain y m d where
    n: "normalize_y_m_d (year x) (month x) d1 = Inr (y, m, d)" and
    r: "r = x\<lparr>year := y, month := m, day := d, hour := h, minute := mi, second := s, microsecond := us\<rparr>"
    by (auto simp: add_datetime_timedelta_def Let_def split: sum.splits)
  note q1 = normalize_pair_props[OF _ p1] and q2 = normalize_pair_props[OF _ p2]
    and q3 = normalize_pair_props[OF _ p3] and q4 = normalize_pair_props[OF _ p4]
  have e: "(((d1 * 24 + h) * 60 + mi) * 60 + s) * 1000000 + us
       = ((((day x + td_days delta * f) * 24 + hour x) * 60 + minute x) * 60
           + second x + td_seconds delta * f) * 1000000 + microsecond x + td_microseconds delta * f"
    using q1(3) q2(3) q3(3) q4(3) by simp
  show ?thesis
    using that[of d1] n e r q1(1,2) q2(1,2) q3(1,2) q4(1,2) by simp
qed


lemma timedelta_seconds_fields:
  "td_days (timedelta_seconds n) * 86400 + td_seconds (timedelta_seconds n) = n"
  "td_microseconds (timedelta_seconds n) = 0"
  by (simp_all add: timedelta_seconds_def)

lemma shift_within_a_day:
  assumes v: "valid_datetime x" and off: "- 86400 < n" "n < 86400"
    and a: "add_datetime_timedelta x (timedelta_seconds n) f = Inr r" and f: "f = 1 \<or> f = - 1"
  shows "valid_datetime r"
proof -
  from a obtain d1 where
    n: "normalize_y_m_d (year x) (month x) d1 = Inr (year r, month r, day r)" and
    e: "(((d1 * 24 + hour r) * 60 + minute r) * 60 + second r) * 1000000 + microsecond r
       = ((((day x + td_days (timedelta_seconds n) * f) * 24 + hour x) * 60 + minute x) * 60
           + second x + td_seconds (timedelta_seconds n) * f) * 1000000 + microsecond x
           + td_microseconds (timedelta_seconds n) * f" and
    t: "0 \<le> hour r" "hour r < 24" "0 \<le> minute r" "minute r < 60"
       "0 \<le> second r" "second r < 60" "0 \<le> microsecond r" "microsecond r < 1000000"
    by (rule add_datetime_timedelta_props)
  define D S where "D = td_days (timedelta_seconds n)" and "S = td_seconds (timedelta_seconds n)"
  have ds: "D * 86400 + S = n" unfolding D_def S_def by (rule timedelta_seconds_fields)
  have vx: "0 \<le> hour x" "hour x < 24" "0 \<le> minute x" "minute x < 60"
       "0 \<le> second x" "second x < 60" "0 \<le> microsecond x" "microsecond x < 1000000"
       "1 \<le> month x" "month x \<le> 12" "1 \<le> day x" "day x \<le> days_in_month (year x) (month x)"
    using v by (simp_all add: valid_datetime_def)
  have e': "(((d1 * 24 + hour r) * 60 + minute r) * 60 + second r) * 1000000 + microsecond r
       = ((((day x + D * f) * 24 + hour x) * 60 + minute x) * 60
           + second x + S * f) * 1000000 + microsecond x"
    using e by (simp add: D_def S_def timedelta_seconds_fields)
  have "day x - 1 \<le> d1 \<and> d1 \<le> day x + 1"
  proof (cases "f = 1")
    case True
    with e' ds off t vx show ?thesis by (simp; arith)
  next
    case False
    with f have "f = - 1" by simp
    with e' ds off t vx show ?thesis by (simp; arith)
  qed
  with vx have "0 \<le> d1" "d1 \<le> days_in_month (year x) (month x) + 1" by simp_all
  from normalize_y_m_d_valid[OF vx(9,10) this n] t show ?thesis by (simp add: valid_datetime_def)
qed

lemma astimezone_utc_is_utc:
  assumes "valid_datetime d" "astimezone_utc local d = Inr u"
  shows "is_utc u"
proof -
  define off where "off = (case tzinfo d of None \<Rightarrow> local d | Some off \<Rightarrow> off)"
  from assms(2) obtain r where o: "- 86400 < off" "off < 86400"
    and a: "add_datetime_timedelta d (timedelta_seconds off) (- 1) = Inr r"
    and u: "u = r\<lparr>tzinfo := Some 0\<rparr>"
    by (auto simp: astimezone_utc_def Let_def off_def split: if_splits sum.splits)
  from shift_within_a_day[OF assms(1) o a] have "valid_datetime r" by simp
  then show ?thesis by (simp add: is_utc_def u valid_datetime_def)
qed

lemma normalize_y_m_d_id:
  assumes "1 \<le> y" "y \<le> 9999" "1 \<le> d" "d \<le> days_in_month y m"
  shows "normalize_y_m_d y m d = Inr (y, m, d)"
  using assms by (simp add: normalize_y_m_d_def)

lemma add_zero:
  assumes "valid_datetime d"
  shows "add_datetime_timedelta d (timedelta_seconds 0) f = Inr d"
  using assms
  by (simp add: add_datetime_timedelta_def timedelta_seconds_def normalize_pair_def
        valid_datetime_def normalize_y_m_d_id)

lemma astimezone_utc_utc:
  assumes "is_utc d"
  shows "astimezone_utc local d = Inr d"
  using assms by (simp add: astimezone_utc_def is_utc_def add_zero)

section \<open>Sorting in descending order\<close>

lemma sorted_reverse_mset: "mset (sorted_reverse key xs) = mset xs"
  by (simp add: sorted_reverse_def)

lemma sorted_reverse_set: "set (sorted_reverse key xs) = set xs"
  by (simp add: sorted_reverse_def)

lemma sorted_reverse_length: "length (sorted_reverse key xs) = length xs"
  by (simp add: sorted_reverse_def)

lemma sorted_reverse_nil: "sorted_reverse key xs = [] \<longleftrightarrow> xs = []"
  by (metis sorted_reverse_length length_0_conv)

lemma sorted_reverse_descending:
  "sorted_wrt (\<lambda>a b. key b \<le> key a) (sorted_reverse key xs)"
proof -
  have "sorted (map key (sort_key key (rev xs)))" by simp
  then have "sorted_wrt (\<lambda>a b. key a \<le> key b) (sort_key key (rev xs))"
    by (simp add: sorted_wrt_map)
  then show ?thesis by (simp add: sorted_reverse_def sorted_wrt_rev)
qed

lemma sorted_reverse_adjacent:
  assumes "Suc i < length (sorted_reverse key xs)"
  shows "key (sorted_reverse key xs ! Suc i) \<le> key (sorted_reverse key xs ! i)"
  using sorted_reverse_descending[of key xs] assms
  by (simp add: sorted_wrt_iff_nth_less)

lemma sorted_reverse_stable:
  "filter (\<lambda>x. key x = k) (sorted_reverse key xs) = filter (\<lambda>x. key x = k) xs"
  by (simp add: sorted_reverse_def rev_filter[symmetric] sort_key_stable)

section \<open>The timestamp resolver\<close>

lemma rss_text_candidate_first: "rss_text_candidate w texts = first_parsed (dtparse_parse w) texts"
proof (induction w texts rule: rss_text_candidate.induct)
  case (1 w)
  show ?case by (simp add: first_parsed_def parsed_values_def map_filter_simps)
next
  case (2 w keys)
  then show ?case by (simp add: first_parsed_def parsed_values_def map_filter_simps)
next
  case (3 w s keys)
  then show ?case
    by (cases "dtparse_parse w s") (simp_all add: first_parsed_def parsed_values_def map_filter_simps to_dt_def)
qed

lemma parse_dt_text_first: "parse_dt_text w texts = first_parsed (text_fromisoformat w) texts"
proof (induction w texts rule: parse_dt_text.induct)
  case (1 w)
  show ?case by (simp add: first_parsed_def parsed_values_def map_filter_simps)
next
  case (2 w ks)
  then show ?case by (simp add: first_parsed_def parsed_values_def map_filter_simps)
next
  case (3 w s ks)
  then show ?case
    by (cases "text_fromisoformat w s") (simp_all add: first_parsed_def parsed_values_def map_filter_simps)
qed

lemma datetime_new_utc:
  assumes "datetime_new args (Some 0) = Inr d"
  shows "tzinfo d = Some 0" "valid_datetime d"
  using assms by (auto simp: datetime_new_def Let_def split: if_splits)

lemma datetime_new_six:
  assumes "datetime_new [y, m, dd, h, mi, s] tz = Inr d"
  shows "dt_key d = (y, m, dd, h, mi, s, 0)"
  using assms by (auto simp: datetime_new_def Let_def dt_key_def split: if_splits)

lemma rss_items_skip:
  assumes "rss_item w url fp e = Inr None"
  shows "rss_items w url fp (es1 @ e # es2) = rss_items w url fp (es1 @ es2)"
  using assms by (induction es1) (simp_all split: sum.splits)

lemma ics_items_skip:
  assumes "ics_item w url c = Inr None"
  shows "ics_items w url (cs1 @ c # cs2) = ics_items w url (cs1 @ cs2)"
  using assms by (induction cs1) (simp_all split: sum.splits)

lemma bills_of_entries_skip:
  assumes "bill_of_entry w since src e = Inr None"
  shows "bills_of_entries w since src (es1 @ e # es2) = bills_of_entries w since src (es1 @ es2)"
  using assms by (induction es1) (simp_all split: sum.splits)

section \<open>The run driver\<close>










section \<open>Rendering\<close>

lemma fromisoformat_valid:
  assumes "fromisoformat s = Some d"
  shows "valid_datetime d"
proof -
  from assms obtain r where "valid_datetime r" "Some r = Some d"
    unfolding fromisoformat_def Let_def
    by (auto split: if_splits option.splits prod.splits)
  then show ?thesis by simp
qed

lemma stored_utcD:
  assumes "stored_utc it"
  obtains d where "fromisoformat (dt it) = Some d" "is_utc d" "isoformat d = dt it"
  using assms fromisoformat_valid[of "dt it"]
  by (auto simp: stored_utc_def is_utc_def split: option.splits)

lemma stored_utc_isoformat:
  assumes "is_utc d" "dt it = isoformat d"
  shows "stored_utc it"
  using assms by (simp add: stored_utc_def fromisoformat_isoformat is_utc_def)

lemma iso_ny_total:
  assumes "is_utc d"
  shows "\<exists>s. iso_ny w d = Inr s"
  by (simp add: iso_ny_def astimezone_utc_utc[OF assms] split: option.splits sum.splits)

lemma rss_bullet_total:
  assumes "stored_utc it"
  shows "\<exists>b. rss_bullet w it = Inr b"
proof -
  from assms obtain d where d: "fromisoformat (dt it) = Some d" "is_utc d" by (rule stored_utcD)
  from iso_ny_total[OF d(2)] obtain s where "iso_ny w d = Inr s" by blast
  with d(1) show ?thesis by (simp add: rss_bullet_def)
qed

lemma ics_bullet_total:
  assumes "stored_utc it"
  shows "\<exists>b. ics_bullet w it = Inr b"
proof -
  from assms obtain d where d: "fromisoformat (dt it) = Some d" "is_utc d" by (rule stored_utcD)
  from iso_ny_total[OF d(2)] obtain s where "iso_ny w d = Inr s" by blast
  with d(1) show ?thesis by (simp add: ics_bullet_def)
qed

lemma bullets_total:
  assumes "\<And>it. it \<in> set its \<Longrightarrow> \<exists>b. f it = Inr b"
  shows "\<exists>bs. bullets f its = Inr bs \<and> length bs = length its"
  using assms
proof (induction its)
  case Nil
  show ?case by simp
next
  case (Cons it its)
  from Cons.prems[of it] obtain b where b: "f it = Inr b" by auto
  from Cons.IH Cons.prems obtain bs where bs: "bullets f its = Inr bs" "length bs = length its"
    by auto
  show ?case using b bs by simp
qed

lemma bullets_nth:
  assumes "bullets f its = Inr bs" "i < length its"
  shows "f (its ! i) = Inr (bs ! i)"
  using assms
proof (induction its arbitrary: bs i)
  case Nil
  then show ?case by simp
next
  case (Cons it its)
  from Cons.prems(1) obtain b bs' where b: "f it = Inr b" "bullets f its = Inr bs'" "bs = b # bs'"
    by (auto split: sum.splits)
  show ?case
  proof (cases i)
    case 0
    then show ?thesis using b by simp
  next
    case (Suc j)
    then show ?thesis using b Cons.IH[OF b(2), of j] Cons.prems(2) by simp
  qed
qed

lemma section_items_stored:
  assumes "list_all stored_utc items"
  shows "list_all stored_utc (rss_section_items items)" "list_all stored_utc (ics_section_items items)"
  using assms
  by (auto simp: rss_section_items_def ics_section_items_def list_all_iff sorted_reverse_set)






lemma isoformat_le:
  assumes "is_utc a" "is_utc b"
  shows "isoformat a \<le> isoformat b \<longleftrightarrow> dt_key a \<le> dt_key b"
  using isoformat_less[OF assms(2) assms(1)] by (simp add: not_less[symmetric])

lemma sorted_reverse_stable_pred:
  assumes "\<And>x. x \<in> set xs \<Longrightarrow> P x \<longleftrightarrow> key x = k"
  shows "filter P (sorted_reverse key xs) = filter P xs"
proof -
  have "filter P (sorted_reverse key xs) = filter (\<lambda>x. key x = k) (sorted_reverse key xs)"
    using assms by (intro filter_cong) (simp_all add: sorted_reverse_set)
  also have "\<dots> = filter (\<lambda>x. key x = k) xs" by (rule sorted_reverse_stable)
  also have "\<dots> = filter P xs" using assms by (intro filter_cong) simp_all
  finally show ?thesis .
qed

lemma stored_sorted_by_timestamp:
  assumes st: "list_all stored_utc xs"
  shows "\<forall>i a b. Suc i < length (sorted_reverse dt xs)
           \<longrightarrow> fromisoformat (dt (sorted_reverse dt xs ! i)) = Some a
           \<longrightarrow> fromisoformat (dt (sorted_reverse dt xs ! Suc i)) = Some b
           \<longrightarrow> dt_key b \<le> dt_key a"
    and "\<forall>a. filter (\<lambda>x. fromisoformat (dt x) = Some a) (sorted_reverse dt xs)
              = filter (\<lambda>x. fromisoformat (dt x) = Some a) xs"
proof -
  let ?S = "sorted_reverse dt xs"
  have ss: "\<And>x. x \<in> set ?S \<Longrightarrow> stored_utc x"
    using st by (simp add: sorted_reverse_set list_all_iff)
  show "\<forall>i a b. Suc i < length ?S \<longrightarrow> fromisoformat (dt (?S ! i)) = Some a
           \<longrightarrow> fromisoformat (dt (?S ! Suc i)) = Some b \<longrightarrow> dt_key b \<le> dt_key a"
  proof (intro allI impI)
    fix i a b
    assume i: "Suc i < length ?S" and a: "fromisoformat (dt (?S ! i)) = Some a"
      and b: "fromisoformat (dt (?S ! Suc i)) = Some b"
    from i have "stored_utc (?S ! i)" "stored_utc (?S ! Suc i)" by (auto intro: ss)
    with a b have u: "is_utc a" "isoformat a = dt (?S ! i)" "is_utc b" "isoformat b = dt (?S ! Suc i)"
      by (auto elim!: stored_utcD)
    from sorted_reverse_adjacent[OF i] have "isoformat b \<le> isoformat a" by (simp add: u)
    then show "dt_key b \<le> dt_key a" by (simp add: isoformat_le[OF u(3) u(1)])
  qed
  show "\<forall>a. filter (\<lambda>x. fromisoformat (dt x) = Some a) ?S
              = filter (\<lambda>x. fromisoformat (dt x) = Some a) xs"
  proof
    fix a
    have "\<And>x. x \<in> set xs \<Longrightarrow> (fromisoformat (dt x) = Some a) \<longleftrightarrow> (dt x = isoformat a \<and> is_utc a)"
    proof -
      fix x assume "x \<in> set xs"
      then have "stored_utc x" using st by (simp add: list_all_iff)
      then obtain d where d: "fromisoformat (dt x) = Some d" "is_utc d" "isoformat d = dt x"
        by (rule stored_utcD)
      show "(fromisoformat (dt x) = Some a) \<longleftrightarrow> (dt x = isoformat a \<and> is_utc a)"
      proof
        assume "fromisoformat (dt x) = Some a"
        with d show "dt x = isoformat a \<and> is_utc a" by simp
      next
        assume r: "dt x = isoformat a \<and> is_utc a"
        then show "fromisoformat (dt x) = Some a" by (simp add: fromisoformat_isoformat)
      qed
    qed
    then show "filter (\<lambda>x. fromisoformat (dt x) = Some a) ?S
              = filter (\<lambda>x. fromisoformat (dt x) = Some a) xs"
    proof (cases "is_utc a")
      case True
      assume h: "\<And>x. x \<in> set xs \<Longrightarrow> (fromisoformat (dt x) = Some a) \<longleftrightarrow> (dt x = isoformat a \<and> is_utc a)"
      show ?thesis
        by (rule sorted_reverse_stable_pred[where k = "isoformat a"]) (simp add: h True)
    next
      case False
      assume h: "\<And>x. x \<in> set xs \<Longrightarrow> (fromisoformat (dt x) = Some a) \<longleftrightarrow> (dt x = isoformat a \<and> is_utc a)"
      have "filter (\<lambda>x. fromisoformat (dt x) = Some a) ?S = []"
        using h False by (simp add: filter_empty_conv sorted_reverse_set)
      moreover have "filter (\<lambda>x. fromisoformat (dt x) = Some a) xs = []"
        using h False by (simp add: filter_empty_conv)
      ultimately show ?thesis by simp
    qed
  qed
qed

lemma render_markdown_stored:
  assumes "list_all stored_utc items"
  shows "\<exists>rb ib.
     bullets (rss_bullet w) (rss_section_items items) = Inr rb
     \<and> length rb = length (rss_section_items items)
     \<and> bullets (ics_bullet w) (ics_section_items items) = Inr ib
     \<and> length ib = length (ics_section_items items)
     \<and> render_markdown w items d
         = Inr (join_lines
             ([''# Massachusetts Policy Feed '' @ em_dash @ '' '' @ d, []]
              @ (if filter (\<lambda>i. item_type i = ''rss'') items = []
                 then [''## Press Releases'', ''> No new items in the last 24 hours.'', []]
                 else [''## Press Releases (last 24h)'', []] @ rb @ [[]])
              @ (if filter (\<lambda>i. item_type i = ''ics'') items = []
                 then [''## Hearings & Meetings'', ''> No events starting in the last 24 hours.'', []]
                 else [''## Hearings & Meetings (last 24h window start times)'', []] @ ib @ [[]])))"
proof -
  note st = section_items_stored[OF assms]
  have "\<exists>bs. bullets (rss_bullet w) (rss_section_items items) = Inr bs
           \<and> length bs = length (rss_section_items items)"
    using st(1) by (intro bullets_total rss_bullet_total) (simp add: list_all_iff)
  then obtain rb where rb: "bullets (rss_bullet w) (rss_section_items items) = Inr rb"
      "length rb = length (rss_section_items items)"
    by blast
  have "\<exists>bs. bullets (ics_bullet w) (ics_section_items items) = Inr bs
           \<and> length bs = length (ics_section_items items)"
    using st(2) by (intro bullets_total ics_bullet_total) (simp add: list_all_iff)
  then obtain ib where ib: "bullets (ics_bullet w) (ics_section_items items) = Inr ib"
      "length ib = length (ics_section_items items)"
    by blast
  have ps: "press_section w items
       = Inr (if filter (\<lambda>i. item_type i = ''rss'') items = []
              then [''## Press Releases'', ''> No new items in the last 24 hours.'', []]
              else [''## Press Releases (last 24h)'', []] @ rb @ [[]])"
    using rb(1) by (simp add: press_section_def)
  have es: "events_section w items
       = Inr (if filter (\<lambda>i. item_type i = ''ics'') items = []
              then [''## Hearings & Meetings'', ''> No events starting in the last 24 hours.'', []]
              else [''## Hearings & Meetings (last 24h window start times)'', []] @ ib @ [[]])"
    using ib(1) by (simp add: events_section_def)
  have "render_markdown w items d
         = Inr (join_lines
             ([''# Massachusetts Policy Feed '' @ em_dash @ '' '' @ d, []]
              @ (if filter (\<lambda>i. item_type i = ''rss'') items = []
                 then [''## Press Releases'', ''> No new items in the last 24 hours.'', []]
                 else [''## Press Releases (last 24h)'', []] @ rb @ [[]])
              @ (if filter (\<lambda>i. item_type i = ''ics'') items = []
                 then [''## Hearings & Meetings'', ''> No events starting in the last 24 hours.'', []]
                 else [''## Hearings & Meetings (last 24h window start times)'', []] @ ib @ [[]])))"
    unfolding render_markdown_def render_lines_def ps es by simp
  with rb ib show ?thesis by blast
qed

lemma main_report:
  assumes "main w spec rss ics d = Inr res"
  shows "render_markdown w (kept_items res) d = Inr (report res)"
  using assms by (auto simp: main_def Let_def split: sum.splits)

lemma bill_lines_nth:
  assumes "bill_lines w bs = Inr ls"
  shows "length ls = length bs" and "\<forall>i<length bs. bill_line w (bs ! i) = Inr (ls ! i)"
  using assms
proof (induction bs arbitrary: ls)
  case Nil
  { case 1 then show ?case by simp }
  { case 2 then show ?case by simp }
next
  case (Cons b bs)
  { case 1
    from 1 obtain l ls' where b: "bill_line w b = Inr l" "bill_lines w bs = Inr ls'" "ls = l # ls'"
      by (auto split: sum.splits)
    then show ?case using Cons.IH(1)[OF b(2)] by simp }
  { case 2
    from 2 obtain l ls' where b: "bill_line w b = Inr l" "bill_lines w bs = Inr ls'" "ls = l # ls'"
      by (auto split: sum.splits)
    show ?case
    proof (intro allI impI)
      fix i assume i: "i < length (b # bs)"
      show "bill_line w ((b # bs) ! i) = Inr (ls ! i)"
      proof (cases i)
        case 0
        then show ?thesis using b by simp
      next
        case (Suc j)
        then show ?thesis using b Cons.IH(2)[OF b(2)] i by simp
      qed
    qed }
qed

lemma main_rss_only_report:
  assumes "add_datetime_timedelta (now_utc w) (timedelta_hours H) (- 1) = Inr since"
    and "urls \<noteq> []" and "bills_of_urls w since urls = Inr bs"
    and "bill_lines w (sort_bills bs) = Inr ls"
  shows "main_rss_only w H urls date_title
         = Inr (Some ([''# Massachusetts Bills Introduced '' @ em_dash @ '' '' @ date_title, []]
                      @ (if bs = [] then [''> No new items found in the last 24 hours.''] else ls)
                      @ [[]]))"
  using assms by (simp add: main_rss_only_def)

section \<open>The window filter\<close>

lemma dt_cmp_same_offset:
  assumes "tzinfo a = tzinfo b"
  shows "dt_ge a b = Inr (dt_key b \<le> dt_key a)" "dt_lt a b = Inr (dt_key a < dt_key b)"
  using assms by (auto simp: dt_ge_def dt_lt_def dt_cmp_def)

lemma one_second_earlier:
  assumes v: "valid_datetime s"
    and a: "add_datetime_timedelta s (timedelta_seconds 1) (- 1) = Inr d"
  shows "dt_key d < dt_key s"
proof -
  have td: "timedelta_seconds 1 = \<lparr>td_days = 0, td_seconds = 1, td_microseconds = 0\<rparr>"
    by (simp add: timedelta_seconds_def)
  from v have r: "0 \<le> microsecond s" "microsecond s < 1000000" "0 \<le> second s" "second s < 60"
    "0 \<le> minute s" "minute s < 60" "0 \<le> hour s" "hour s < 24"
    "1 \<le> day s" "day s \<le> days_in_month (year s) (month s)" "1 \<le> month s" "month s \<le> 12"
    by (simp_all add: valid_datetime_def)
  show ?thesis
  proof (cases "second s = 0")
    case False
    with r a show ?thesis
      by (auto simp: td add_datetime_timedelta_def normalize_pair_def normalize_y_m_d_def
            dt_key_def Let_def split: if_splits)
  next
    case s0: True
    show ?thesis
    proof (cases "minute s = 0")
      case False
      with s0 r a show ?thesis
        by (auto simp: td add_datetime_timedelta_def normalize_pair_def normalize_y_m_d_def
              dt_key_def Let_def split: if_splits)
    next
      case m0: True
      show ?thesis
      proof (cases "hour s = 0")
        case False
        with s0 m0 r a show ?thesis
          by (auto simp: td add_datetime_timedelta_def normalize_pair_def normalize_y_m_d_def
                dt_key_def Let_def split: if_splits)
      next
        case h0: True
        show ?thesis
        proof (cases "day s = 1")
          case False
          with s0 m0 h0 r a show ?thesis
            by (auto simp: td add_datetime_timedelta_def normalize_pair_def normalize_y_m_d_def
                  dt_key_def Let_def split: if_splits)
        next
          case d1: True
          with s0 m0 h0 r a show ?thesis
            by (auto simp: td add_datetime_timedelta_def normalize_pair_def normalize_y_m_d_def
                  dt_key_def Let_def split: if_splits)
        qed
      qed
    qed
  qed
qed


lemma astimezone_utc_tz:
  assumes "astimezone_utc local d = Inr u"
  shows "tzinfo u = Some 0"
  using assms by (auto simp: astimezone_utc_def Let_def split: if_splits sum.splits)

lemma since_of_tz:
  assumes "since_of now spec = Inr since"
  shows "tzinfo since = tzinfo now"
proof (cases spec)
  case (Hours n)
  with assms have "add_datetime_timedelta now (timedelta_hours n) (- 1) = Inr since"
    by (simp add: since_of_def)
  then show ?thesis by (rule add_datetime_timedelta_props)
next
  case (Days n)
  with assms have "add_datetime_timedelta now (timedelta_days n) (- 1) = Inr since"
    by (simp add: since_of_def)
  then show ?thesis by (rule add_datetime_timedelta_props)
qed

lemma window_loop_filter:
  assumes "tzinfo since = Some 0" "list_all stored_utc its"
  shows "window_loop since its acc
         = (acc @ filter (in_window since) its, None)"
  using assms(2)
proof (induction its arbitrary: acc)
  case Nil
  show ?case by simp
next
  case (Cons it its)
  from Cons.prems have "stored_utc it" and rest: "list_all stored_utc its" by simp_all
  then obtain d where d: "fromisoformat (dt it) = Some d" "is_utc d" by (auto elim: stored_utcD)
  then have "tzinfo d = tzinfo since" using assms(1) by (simp add: is_utc_def)
  then have w: "within_window d since = Inr (dt_key since \<le> dt_key d)"
    by (simp add: within_window_def dt_cmp_same_offset)
  show ?case using d(1) w Cons.IH[OF rest] by (simp add: in_window_def)
qed

lemma bill_of_entry_window:
  assumes "tzinfo since = Some 0" "parse_dt w e = Inr (Some d0)"
    and "astimezone_utc (local_utcoffset w) (if tzinfo d0 = None then replace_tz_utc d0 else d0) = Inr u"
  shows "bill_of_entry w since src e = Inr None \<longleftrightarrow> dt_key u < dt_key since"
    and "dt_key since \<le> dt_key u \<Longrightarrow> \<exists>b. bill_of_entry w since src e = Inr (Some b) \<and> b_when b = u"
proof -
  have "tzinfo u = tzinfo since" using astimezone_utc_tz[OF assms(3)] assms(1) by simp
  then have l: "dt_lt u since = Inr (dt_key u < dt_key since)" by (rule dt_cmp_same_offset)
  show "bill_of_entry w since src e = Inr None \<longleftrightarrow> dt_key u < dt_key since"
    using assms(2,3) l by (cases "dt_key u < dt_key since") (simp_all add: bill_of_entry_def Let_def)
  show "dt_key since \<le> dt_key u \<Longrightarrow> \<exists>b. bill_of_entry w since src e = Inr (Some b) \<and> b_when b = u"
    using assms(2,3) l by (cases "dt_key u < dt_key since") (simp_all add: bill_of_entry_def Let_def)
qed

lemma bill_of_entry_within:
  assumes "tzinfo since = Some 0" "bill_of_entry w since src e = Inr (Some b)"
  shows "dt_key since \<le> dt_key (b_when b)"
proof -
  from assms(2) obtain d0 u where p: "parse_dt w e = Inr (Some d0)"
    and a: "astimezone_utc (local_utcoffset w) (if tzinfo d0 = None then replace_tz_utc d0 else d0) = Inr u"
    by (auto simp: bill_of_entry_def split: sum.splits option.splits)
  have "tzinfo u = tzinfo since" using astimezone_utc_tz[OF a] assms(1) by simp
  then have l: "dt_lt u since = Inr (dt_key u < dt_key since)" by (rule dt_cmp_same_offset)
  show ?thesis
    using assms(2) p a l by (cases "dt_key u < dt_key since") (auto simp: bill_of_entry_def Let_def)
qed

lemma bills_of_entries_within:
  assumes "tzinfo since = Some 0" "bills_of_entries w since src es = Inr bs"
  shows "\<forall>b\<in>set bs. dt_key since \<le> dt_key (b_when b)"
  using assms(2)
proof (induction es arbitrary: bs)
  case Nil
  then show ?case by simp
next
  case (Cons e es)
  from Cons.prems obtain r bs' where r: "bill_of_entry w since src e = Inr r"
    and t: "bills_of_entries w since src es = Inr bs'"
    and bs: "bs = (case r of None \<Rightarrow> bs' | Some b \<Rightarrow> b # bs')"
    by (auto split: sum.splits)
  show ?case
  proof (cases r)
    case None
    then show ?thesis using bs Cons.IH[OF t] by simp
  next
    case (Some b)
    then show ?thesis using bs Cons.IH[OF t] bill_of_entry_within[OF assms(1), of w src e b] r by simp
  qed
qed

lemma bills_of_urls_within:
  assumes "tzinfo since = Some 0" "bills_of_urls w since urls = Inr bs"
  shows "\<forall>b\<in>set bs. dt_key since \<le> dt_key (b_when b)"
  using assms(2)
proof (induction urls arbitrary: bs)
  case Nil
  then show ?case by simp
next
  case (Cons url urls)
  from Cons.prems obtain fp b1 b2 where "feedparser_parse w url = Inr fp"
    and b1: "bills_of_entries w since
                  (if feed_present fp
                   then strip (case feed_title fp of None \<Rightarrow> url | Some t \<Rightarrow> str_or t url)
                   else url) (entries fp) = Inr b1"
    and b2: "bills_of_urls w since urls = Inr b2" and bs: "bs = b1 @ b2"
    by (auto split: sum.splits)
  show ?case using bs bills_of_entries_within[OF assms(1) b1] Cons.IH[OF b2] by auto
qed

lemma replace_tz_utc_valid:
  assumes "valid_datetime d"
  shows "valid_datetime (replace_tz_utc d)"
  using assms by (simp add: replace_tz_utc_def valid_datetime_def)

lemma datetime_new_valid:
  assumes "datetime_new args tz = Inr d"
  shows "valid_datetime d" "tzinfo d = tz"
  using assms by (auto simp: datetime_new_def Let_def split: if_splits)

lemma rss_text_candidate_valid:
  assumes "valid_world w" "rss_text_candidate w keys = Some d"
  shows "valid_datetime d"
  using assms(2)
proof (induction keys)
  case Nil
  then show ?case by simp
next
  case (Cons k keys)
  show ?case
  proof (cases k)
    case None
    then show ?thesis using Cons by simp
  next
    case (Some s)
    show ?thesis
    proof (cases "dtparse_parse w s")
      case (Inl e)
      then show ?thesis using Some Cons by (simp add: to_dt_def)
    next
      case (Inr d')
      then have "d' = d" using Some Cons.prems by (simp add: to_dt_def)
      then show ?thesis using Inr assms(1) by (auto simp: valid_world_def)
    qed
  qed
qed

lemma rss_dt_candidate_valid:
  assumes "valid_world w" "rss_dt_candidate w e = Inr (Some d)"
  shows "valid_datetime d"
proof (cases "rss_text_candidate w [e_published e, e_updated e, e_created e]")
  case (Some d')
  then have "d' = d" using assms(2) by (simp add: rss_dt_candidate_def)
  then show ?thesis using rss_text_candidate_valid[OF assms(1) Some] by simp
next
  case None
  then obtain t where "datetime_new (take 6 t) (Some 0) = Inr d"
    using assms(2) by (auto simp: rss_dt_candidate_def split: option.splits if_splits sum.splits)
  then show ?thesis by (rule datetime_new_valid)
qed

lemma rss_item_stored:
  assumes "valid_world w" "rss_item w url fp e = Inr (Some it)"
  shows "stored_utc it"
proof -
  from assms(2) obtain c u where c: "rss_dt_candidate w e = Inr (Some c)"
    and u: "astimezone_utc (local_utcoffset w) c = Inr u" and i: "dt it = isoformat u"
    by (auto simp: rss_item_def to_dt_def split: sum.splits option.splits)
  have "is_utc u" using rss_dt_candidate_valid[OF assms(1) c] u by (rule astimezone_utc_is_utc)
  then show ?thesis using i by (rule stored_utc_isoformat)
qed

lemma rss_items_stored:
  assumes "valid_world w" "rss_items w url fp es = Inr its"
  shows "list_all stored_utc its"
  using assms(2)
proof (induction es arbitrary: its)
  case Nil
  then show ?case by simp
next
  case (Cons e es)
  from Cons.prems obtain r its' where r: "rss_item w url fp e = Inr r"
    and t: "rss_items w url fp es = Inr its'"
    and i: "its = (case r of None \<Rightarrow> its' | Some it \<Rightarrow> it # its')"
    by (auto split: sum.splits)
  show ?case
  proof (cases r)
    case None
    then show ?thesis using i Cons.IH[OF t] by simp
  next
    case (Some it)
    then show ?thesis using i Cons.IH[OF t] rss_item_stored[OF assms(1), of url fp e it] r by simp
  qed
qed

lemma fetch_rss_stored:
  assumes "valid_world w" "fetch_rss w url = Inr its"
  shows "list_all stored_utc its"
  using assms(2) rss_items_stored[OF assms(1)]
  by (auto simp: fetch_rss_def split: sum.splits)

lemma ics_item_stored:
  assumes "\<forall>d. c_dtstart cpt = Some (DateTimeValue d) \<longrightarrow> valid_datetime d"
    and "ics_item w url cpt = Inr (Some it)"
  shows "stored_utc it"
proof -
  from assms(2) obtain v u where v: "c_dtstart cpt = Some v" and u: "ics_dt_utc w v = Inr u"
    and i: "dt it = isoformat u"
    by (auto simp: ics_item_def Let_def split: if_splits sum.splits option.splits)
  have "is_utc u"
  proof (cases v)
    case (DateTimeValue d0)
    then have vd: "valid_datetime d0" using assms(1) v by simp
    have vv: "valid_datetime (if tzinfo d0 = None then replace_tz_utc d0 else d0)"
      using vd by (simp add: replace_tz_utc_valid)
    have "astimezone_utc (local_utcoffset w) (if tzinfo d0 = None then replace_tz_utc d0 else d0) = Inr u"
      using u DateTimeValue by (simp add: ics_dt_utc_def)
    with vv show ?thesis by (rule astimezone_utc_is_utc)
  next
    case (DateValue dd)
    then have "datetime_new [d_year dd, d_month dd, d_day dd, 12, 0] (Some 0) = Inr u"
      using u by (simp add: ics_dt_utc_def)
    from datetime_new_valid[OF this] show ?thesis by (simp add: is_utc_def)
  qed
  then show ?thesis using i by (rule stored_utc_isoformat)
qed

lemma ics_items_stored:
  assumes "\<forall>cpt\<in>set cpts. \<forall>d. c_dtstart cpt = Some (DateTimeValue d) \<longrightarrow> valid_datetime d"
    and "ics_items w url cpts = Inr its"
  shows "list_all stored_utc its"
  using assms
proof (induction cpts arbitrary: its)
  case Nil
  then show ?case by simp
next
  case (Cons cpt cpts)
  from Cons.prems(2) obtain r its' where r: "ics_item w url cpt = Inr r"
    and t: "ics_items w url cpts = Inr its'"
    and i: "its = (case r of None \<Rightarrow> its' | Some it \<Rightarrow> it # its')"
    by (auto split: sum.splits)
  have "\<forall>cpt\<in>set cpts. \<forall>d. c_dtstart cpt = Some (DateTimeValue d) \<longrightarrow> valid_datetime d"
    using Cons.prems(1) by simp
  then have ih: "list_all stored_utc its'" using t by (rule Cons.IH)
  have h: "\<forall>d. c_dtstart cpt = Some (DateTimeValue d) \<longrightarrow> valid_datetime d"
    using Cons.prems(1) by simp
  show ?case
  proof (cases r)
    case None
    then show ?thesis using i ih by simp
  next
    case (Some it)
    have "stored_utc it" using h r[unfolded Some] by (rule ics_item_stored)
    then show ?thesis using i ih Some by simp
  qed
qed

lemma fetch_ics_stored:
  assumes "valid_world w" "fetch_ics w url = Inr its"
  shows "list_all stored_utc its"
proof -
  from assms(2) obtain resp cpts where "requests_get w url = Inr resp"
    and c: "calendar_walk w (content resp) = Inr cpts" and i: "ics_items w url cpts = Inr its"
    by (auto simp: fetch_ics_def split: sum.splits)
  have "\<forall>cpt\<in>set cpts. \<forall>d. c_dtstart cpt = Some (DateTimeValue d) \<longrightarrow> valid_datetime d"
    using assms(1) c unfolding valid_world_def by blast
  then show ?thesis using i by (rule ics_items_stored)
qed

lemma collect_kept:
  assumes "tzinfo since = Some 0"
    and "\<And>u its. fetch u = Inr its \<Longrightarrow> list_all stored_utc its"
  shows "collect fetch label since us (a, e)
         = (a @ concat (map (kept_of fetch since) us),
            e @ concat (map (\<lambda>u. case fetch u of Inl err \<Rightarrow> [warn_line label u err] | Inr _ \<Rightarrow> []) us))"
proof (induction us arbitrary: a e)
  case Nil
  show ?case by simp
next
  case (Cons u us)
  show ?case
  proof (cases "fetch u")
    case (Inl err)
    then show ?thesis by (simp add: Cons kept_of_def)
  next
    case (Inr its)
    have "window_loop since its a = (a @ filter (in_window since) its, None)"
      using assms(1) assms(2)[OF Inr] by (rule window_loop_filter)
    then show ?thesis using Inr by (simp add: Cons kept_of_def)
  qed
qed

lemma main_kept:
  assumes "valid_world w" "tzinfo (now_utc w) = Some 0" "since_of (now_utc w) spec = Inr since"
    and "main w spec rss ics d = Inr res"
  shows "kept_items res
         = concat (map (kept_of (fetch_rss w) since) rss) @ concat (map (kept_of (fetch_ics w) since) ics)"
proof -
  have tz: "tzinfo since = Some 0" using since_of_tz[OF assms(3)] assms(2) by simp
  note c1 = collect_kept[OF tz fetch_rss_stored[OF assms(1)], of "fetch_rss w"]
  note c2 = collect_kept[OF tz fetch_ics_stored[OF assms(1)], of "fetch_ics w"]
  show ?thesis
    using assms(3,4) by (auto simp: main_def Let_def c1 c2 split: sum.splits)
qed

section \<open>The claims\<close>

text \<open>
  C3. For every RSS entry, both programs resolve the timestamp as the first value that
  parses among the text fields \<open>published\<close>, \<open>updated\<close>, \<open>created\<close>, in that order, a
  field whose parse raises being passed over like an absent one. Only when none of
  them parses is the structured \<open>published_parsed\<close> tuple used (in the RSS-only program
  followed by \<open>updated_parsed\<close>), and the datetime made of it is tagged UTC and has
  the tuple's first six components.
\<close>

theorem rss_timestamp_fallback_order:
  "rss_dt_candidate w e =
     (case first_parsed (dtparse_parse w) [e_published e, e_updated e, e_created e] of
        Some d \<Rightarrow> Inr (Some d)
      | None \<Rightarrow>
          (case e_published_parsed e of
             Some (x # xs) \<Rightarrow> tuple_as_utc (x # xs)
           | _ \<Rightarrow> Inr None))
   \<and> parse_dt w e =
     (case first_parsed (text_fromisoformat w) [e_published e, e_updated e, e_created e] of
        Some d \<Rightarrow> Inr (Some d)
      | None \<Rightarrow>
          (case e_published_parsed e of
             Some (x # xs) \<Rightarrow> tuple_as_utc (x # xs)
           | _ \<Rightarrow>
               (case e_updated_parsed e of
                  Some (x # xs) \<Rightarrow> tuple_as_utc (x # xs)
                | _ \<Rightarrow> Inr None)))
   \<and> (\<forall>y m dd h mi s rest d.
         tuple_as_utc (y # m # dd # h # mi # s # rest) = Inr (Some d) \<longrightarrow>
         tzinfo d = Some 0 \<and> dt_key d = (y, m, dd, h, mi, s, 0))"
proof (intro conjI allI impI)
  show "rss_dt_candidate w e =
     (case first_parsed (dtparse_parse w) [e_published e, e_updated e, e_created e] of
        Some d \<Rightarrow> Inr (Some d)
      | None \<Rightarrow>
          (case e_published_parsed e of
             Some (x # xs) \<Rightarrow> tuple_as_utc (x # xs)
           | _ \<Rightarrow> Inr None))"
    unfolding rss_dt_candidate_def rss_text_candidate_first tuple_as_utc_def
    by (simp split: option.splits list.splits)
  show "parse_dt w e =
     (case first_parsed (text_fromisoformat w) [e_published e, e_updated e, e_created e] of
        Some d \<Rightarrow> Inr (Some d)
      | None \<Rightarrow>
          (case e_published_parsed e of
             Some (x # xs) \<Rightarrow> tuple_as_utc (x # xs)
           | _ \<Rightarrow>
               (case e_updated_parsed e of
                  Some (x # xs) \<Rightarrow> tuple_as_utc (x # xs)
                | _ \<Rightarrow> Inr None)))"
    unfolding parse_dt_def parse_dt_text_first tuple_as_utc_def
    by (simp split: option.splits list.splits)
next
  fix y m dd h mi s rest d
  assume a: "tuple_as_utc (y # m # dd # h # mi # s # rest) = Inr (Some d)"
  then have n: "datetime_new [y, m, dd, h, mi, s] (Some 0) = Inr d"
    by (simp add: tuple_as_utc_def split: sum.splits)
  show "tzinfo d = Some 0" by (rule datetime_new_utc(1)[OF n])
  show "dt_key d = (y, m, dd, h, mi, s, 0)" by (rule datetime_new_six[OF n])
qed

theorem rss_timestamp_fallback_order_witness:
  "rss_dt_candidate example_world entry_updated =
     Inr (Some \<lparr>year = 2024, month = 3, day = 15, hour = 9, minute = 0, second = 0,
                microsecond = 0, tzinfo = Some 0\<rparr>)
   \<and> rss_dt_candidate example_world entry_tuple =
     Inr (Some \<lparr>year = 2024, month = 3, day = 14, hour = 8, minute = 0, second = 0,
                microsecond = 0, tzinfo = Some 0\<rparr>)
   \<and> parse_dt example_world entry_undated = Inr None
   \<and> tuple_as_utc [2024, 3, 14, 8, 0, 0, 3, 74, 0] =
     Inr (Some \<lparr>year = 2024, month = 3, day = 14, hour = 8, minute = 0, second = 0,
                microsecond = 0, tzinfo = Some 0\<rparr>)
   \<and> dt_key \<lparr>year = 2024, month = 3, day = 14, hour = 8, minute = 0, second = 0,
                microsecond = 0, tzinfo = Some 0\<rparr> = (2024, 3, 14, 8, 0, 0, 0)"
proof -
  note t = rss_timestamp_fallback_order
  have u: "tuple_as_utc [2024, 3, 14, 8, 0, 0, 3, 74, 0] =
     Inr (Some \<lparr>year = 2024, month = 3, day = 14, hour = 8, minute = 0, second = 0,
                microsecond = 0, tzinfo = Some 0\<rparr>)"
    by code_simp
  have k: "dt_key \<lparr>year = 2024, month = 3, day = 14, hour = 8, minute = 0, second = 0,
                microsecond = 0, tzinfo = Some 0\<rparr> = (2024, 3, 14, 8, 0, 0, 0)"
    using t[of example_world entry_tuple, THEN conjunct2, THEN conjunct2] u by blast
  have a: "(case first_parsed (dtparse_parse example_world)
                  [e_published entry_updated, e_updated entry_updated, e_created entry_updated] of
              Some d \<Rightarrow> Inr (Some d)
            | None \<Rightarrow>
                (case e_published_parsed entry_updated of
                   Some (x # xs) \<Rightarrow> tuple_as_utc (x # xs)
                 | _ \<Rightarrow> Inr None))
           = Inr (Some \<lparr>year = 2024, month = 3, day = 15, hour = 9, minute = 0, second = 0,
                microsecond = 0, tzinfo = Some 0\<rparr>)"
    by code_simp
  have b: "(case first_parsed (dtparse_parse example_world)
                  [e_published entry_tuple, e_updated entry_tuple, e_created entry_tuple] of
              Some d \<Rightarrow> Inr (Some d)
            | None \<Rightarrow>
                (case e_published_parsed entry_tuple of
                   Some (x # xs) \<Rightarrow> tuple_as_utc (x # xs)
                 | _ \<Rightarrow> Inr None))
           = Inr (Some \<lparr>year = 2024, month = 3, day = 14, hour = 8, minute = 0, second = 0,
                microsecond = 0, tzinfo = Some 0\<rparr>)"
    by code_simp
  have c: "(case first_parsed (text_fromisoformat example_world)
                  [e_published entry_undated, e_updated entry_undated, e_created entry_undated] of
              Some d \<Rightarrow> Inr (Some d)
            | None \<Rightarrow>
                (case e_published_parsed entry_undated of
                   Some (x # xs) \<Rightarrow> tuple_as_utc (x # xs)
                 | _ \<Rightarrow>
                     (case e_updated_parsed entry_undated of
                        Some (x # xs) \<Rightarrow> tuple_as_utc (x # xs)
                      | _ \<Rightarrow> Inr None)))
           = Inr None"
    by code_simp
  show ?thesis
    using t[of example_world entry_updated, THEN conjunct1]
      t[of example_world entry_tuple, THEN conjunct1]
      t[of example_world entry_undated, THEN conjunct2, THEN conjunct1]
    unfolding a b c using u k by (intro conjI)
qed

text \<open>
  C6. A record for which no timestamp can be resolved is dropped without trace: an
  RSS entry none of whose text fields parses and that has no structured tuple, or a
  calendar event without \<open>DTSTART\<close>, yields no item (the loop body is a \<open>continue\<close>),
  and the adapter returns exactly what it returns without that record, the same items
  and no exception, so nothing reaches the report or the warnings.
\<close>

theorem unresolved_record_dropped:
  "(first_parsed (dtparse_parse w) [e_published e, e_updated e, e_created e] = None
      \<and> e_published_parsed e = None
    \<longrightarrow> rss_item w url fp e = Inr None
        \<and> rss_items w url fp (es1 @ e # es2) = rss_items w url fp (es1 @ es2))
   \<and> (c_dtstart c = None
    \<longrightarrow> ics_item w url c = Inr None
        \<and> ics_items w url (cs1 @ c # cs2) = ics_items w url (cs1 @ cs2))
   \<and> (first_parsed (text_fromisoformat w) [e_published e, e_updated e, e_created e] = None
      \<and> e_published_parsed e = None \<and> e_updated_parsed e = None
    \<longrightarrow> bill_of_entry w since src e = Inr None
        \<and> bills_of_entries w since src (es1 @ e # es2) = bills_of_entries w since src (es1 @ es2))"
proof (intro conjI impI)
  assume a: "first_parsed (dtparse_parse w) [e_published e, e_updated e, e_created e] = None
      \<and> e_published_parsed e = None"
  then have "rss_dt_candidate w e = Inr None"
    by (simp add: rss_dt_candidate_def rss_text_candidate_first)
  then show i: "rss_item w url fp e = Inr None" by (simp add: rss_item_def)
  show "rss_items w url fp (es1 @ e # es2) = rss_items w url fp (es1 @ es2)"
    by (rule rss_items_skip[OF i])
next
  assume "c_dtstart c = None"
  then show i: "ics_item w url c = Inr None" by (simp add: ics_item_def)
  show "ics_items w url (cs1 @ c # cs2) = ics_items w url (cs1 @ cs2)"
    by (rule ics_items_skip[OF i])
next
  assume a: "first_parsed (text_fromisoformat w) [e_published e, e_updated e, e_created e] = None
      \<and> e_published_parsed e = None \<and> e_updated_parsed e = None"
  then have "parse_dt w e = Inr None" by (simp add: parse_dt_def parse_dt_text_first)
  then show i: "bill_of_entry w since src e = Inr None" by (simp add: bill_of_entry_def)
  show "bills_of_entries w since src (es1 @ e # es2) = bills_of_entries w since src (es1 @ es2)"
    by (rule bills_of_entries_skip[OF i])
qed

theorem unresolved_record_dropped_witness:
  "first_parsed (dtparse_parse example_world)
       [e_published entry_undated, e_updated entry_undated, e_created entry_undated] = None
   \<and> e_published_parsed entry_undated = None
   \<and> rss_items example_world ''u'' example_feed ([entry_updated] @ entry_undated # [entry_tuple])
       = rss_items example_world ''u'' example_feed ([entry_updated] @ [entry_tuple])
   \<and> c_dtstart event_no_start = None
   \<and> ics_items example_world ''u'' ([event_all_day] @ event_no_start # [event_naive])
       = ics_items example_world ''u'' ([event_all_day] @ [event_naive])
   \<and> e_updated_parsed entry_undated = None
   \<and> bill_of_entry example_world example_now ''s'' entry_undated = Inr None"
proof -
  have a: "first_parsed (dtparse_parse example_world)
       [e_published entry_undated, e_updated entry_undated, e_created entry_undated] = None"
    by code_simp
  have a': "first_parsed (text_fromisoformat example_world)
       [e_published entry_undated, e_updated entry_undated, e_created entry_undated] = None"
    by code_simp
  have b: "e_published_parsed entry_undated = None" "e_updated_parsed entry_undated = None"
    by (simp_all add: entry_undated_def blank_entry_def)
  have c: "c_dtstart event_no_start = None" by (simp add: event_no_start_def blank_event_def)
  note t = unresolved_record_dropped[of example_world entry_undated "''u''" example_feed
      "[entry_updated]" "[entry_tuple]" event_no_start "[event_all_day]" "[event_naive]"
      example_now "''s''"]
  from t a a' b c show ?thesis by blast
qed





text \<open>
  C10. For every collection of stored items, \<open>render_markdown\<close> succeeds, and the report
  it returns is the title followed by both sections, in the order press releases, events,
  joined line by line. A category without items shows its heading and the explicit
  placeholder line; a category with items shows its heading and one line per item. No
  section is left out. The report of a completed run of \<open>main\<close> is this text for the
  items the run kept.
\<close>

theorem empty_category_placeholder:
  assumes "list_all stored_utc items"
  shows "(\<exists>ps es.
     render_markdown w items d
       = Inr (join_lines ([''# Massachusetts Policy Feed '' @ em_dash @ '' '' @ d, []] @ ps @ es))
     \<and> (if filter (\<lambda>i. item_type i = ''rss'') items = []
        then ps = [''## Press Releases'', ''> No new items in the last 24 hours.'', []]
        else \<exists>bs. bullets (rss_bullet w) (rss_section_items items) = Inr bs
                \<and> length bs = length (filter (\<lambda>i. item_type i = ''rss'') items)
                \<and> ps = [''## Press Releases (last 24h)'', []] @ bs @ [[]])
     \<and> (if filter (\<lambda>i. item_type i = ''ics'') items = []
        then es = [''## Hearings & Meetings'', ''> No events starting in the last 24 hours.'', []]
        else \<exists>bs. bullets (ics_bullet w) (ics_section_items items) = Inr bs
                \<and> length bs = length (filter (\<lambda>i. item_type i = ''ics'') items)
                \<and> es = [''## Hearings & Meetings (last 24h window start times)'', []] @ bs @ [[]]))
   \<and> (\<forall>spec rss ics res. main w spec rss ics d = Inr res
         \<longrightarrow> render_markdown w (kept_items res) d = Inr (report res))"
proof (intro conjI allI impI)
  from render_markdown_stored[OF assms, of w d] obtain rb ib where
    rb: "bullets (rss_bullet w) (rss_section_items items) = Inr rb"
        "length rb = length (rss_section_items items)"
    and ib: "bullets (ics_bullet w) (ics_section_items items) = Inr ib"
        "length ib = length (ics_section_items items)"
    and r: "render_markdown w items d
         = Inr (join_lines
             ([''# Massachusetts Policy Feed '' @ em_dash @ '' '' @ d, []]
              @ (if filter (\<lambda>i. item_type i = ''rss'') items = []
                 then [''## Press Releases'', ''> No new items in the last 24 hours.'', []]
                 else [''## Press Releases (last 24h)'', []] @ rb @ [[]])
              @ (if filter (\<lambda>i. item_type i = ''ics'') items = []
                 then [''## Hearings & Meetings'', ''> No events starting in the last 24 hours.'', []]
                 else [''## Hearings & Meetings (last 24h window start times)'', []] @ ib @ [[]])))"
    by blast
  have lr: "length rb = length (filter (\<lambda>i. item_type i = ''rss'') items)"
    using rb(2) by (simp add: rss_section_items_def sorted_reverse_length)
  have li: "length ib = length (filter (\<lambda>i. item_type i = ''ics'') items)"
    using ib(2) by (simp add: ics_section_items_def sorted_reverse_length)
  let ?ps = "if filter (\<lambda>i. item_type i = ''rss'') items = []
                 then [''## Press Releases'', ''> No new items in the last 24 hours.'', []]
                 else [''## Press Releases (last 24h)'', []] @ rb @ [[]]"
  let ?es = "if filter (\<lambda>i. item_type i = ''ics'') items = []
                 then [''## Hearings & Meetings'', ''> No events starting in the last 24 hours.'', []]
                 else [''## Hearings & Meetings (last 24h window start times)'', []] @ ib @ [[]]"
  have p: "if filter (\<lambda>i. item_type i = ''rss'') items = []
        then ?ps = [''## Press Releases'', ''> No new items in the last 24 hours.'', []]
        else \<exists>bs. bullets (rss_bullet w) (rss_section_items items) = Inr bs
                \<and> length bs = length (filter (\<lambda>i. item_type i = ''rss'') items)
                \<and> ?ps = [''## Press Releases (last 24h)'', []] @ bs @ [[]]"
    using rb(1) lr by simp
  have e: "if filter (\<lambda>i. item_type i = ''ics'') items = []
        then ?es = [''## Hearings & Meetings'', ''> No events starting in the last 24 hours.'', []]
        else \<exists>bs. bullets (ics_bullet w) (ics_section_items items) = Inr bs
                \<and> length bs = length (filter (\<lambda>i. item_type i = ''ics'') items)
                \<and> ?es = [''## Hearings & Meetings (last 24h window start times)'', []] @ bs @ [[]]"
    using ib(1) li by simp
  from r p e show "\<exists>ps es.
     render_markdown w items d
       = Inr (join_lines ([''# Massachusetts Policy Feed '' @ em_dash @ '' '' @ d, []] @ ps @ es))
     \<and> (if filter (\<lambda>i. item_type i = ''rss'') items = []
        then ps = [''## Press Releases'', ''> No new items in the last 24 hours.'', []]
        else \<exists>bs. bullets (rss_bullet w) (rss_section_items items) = Inr bs
                \<and> length bs = length (filter (\<lambda>i. item_type i = ''rss'') items)
                \<and> ps = [''## Press Releases (last 24h)'', []] @ bs @ [[]])
     \<and> (if filter (\<lambda>i. item_type i = ''ics'') items = []
        then es = [''## Hearings & Meetings'', ''> No events starting in the last 24 hours.'', []]
        else \<exists>bs. bullets (ics_bullet w) (ics_section_items items) = Inr bs
                \<and> length bs = length (filter (\<lambda>i. item_type i = ''ics'') items)
                \<and> es = [''## Hearings & Meetings (last 24h window start times)'', []] @ bs @ [[]])"
    by blast
next
  fix spec rss ics res
  assume "main w spec rss ics d = Inr res"
  then show "render_markdown w (kept_items res) d = Inr (report res)" by (rule main_report)
qed

theorem empty_category_placeholder_witness:
  "list_all stored_utc [item_hearing]
   \<and> render_markdown example_world [item_hearing] ''2024-03-15''
     = Inr (join_lines
          [''# Massachusetts Policy Feed '' @ em_dash @ '' '' @ ''2024-03-15'', [],
            ''## Press Releases'', ''> No new items in the last 24 hours.'', [],
            ''## Hearings & Meetings (last 24h window start times)'', [],
            bullet_plain ''2024-03-15 08:00'' ''Committee hearing'' ''https://good.example/ics'',
            []])
   \<and> map_sum id kept_items
        (main example_world (Hours 24) [] [''https://good.example/ics''] ''2024-03-15'')
     = Inr [item_hearing, item_session]
   \<and> map_sum id report
        (main example_world (Hours 24) [] [''https://good.example/ics''] ''2024-03-15'')
     = render_markdown example_world [item_hearing, item_session] ''2024-03-15''"
proof -
  have s: "list_all stored_utc [item_hearing]" by code_simp
  have f: "filter (\<lambda>i. item_type i = ''rss'') [item_hearing] = []"
          "filter (\<lambda>i. item_type i = ''ics'') [item_hearing] \<noteq> []"
    by (simp_all add: item_hearing_def)
  have b: "bullets (ics_bullet example_world) (ics_section_items [item_hearing])
           = Inr [bullet_plain ''2024-03-15 08:00'' ''Committee hearing'' ''https://good.example/ics'']"
    by code_simp
  have k: "map_sum id kept_items
        (main example_world (Hours 24) [] [''https://good.example/ics''] ''2024-03-15'')
     = Inr [item_hearing, item_session]"
    by code_simp
  then obtain res where
    m: "main example_world (Hours 24) [] [''https://good.example/ics''] ''2024-03-15'' = Inr res"
    and kr: "kept_items res = [item_hearing, item_session]"
    by (cases "main example_world (Hours 24) [] [''https://good.example/ics''] ''2024-03-15''") auto
  note t = empty_category_placeholder[OF s, of example_world "''2024-03-15''"]
  from t f b
  have r: "render_markdown example_world [item_hearing] ''2024-03-15''
     = Inr (join_lines
          ([''# Massachusetts Policy Feed '' @ em_dash @ '' '' @ ''2024-03-15'', []]
            @ [''## Press Releases'', ''> No new items in the last 24 hours.'', []]
            @ ([''## Hearings & Meetings (last 24h window start times)'', []]
               @ [bullet_plain ''2024-03-15 08:00'' ''Committee hearing'' ''https://good.example/ics'']
               @ [[]])))"
    by auto
  from t m have "render_markdown example_world (kept_items res) ''2024-03-15'' = Inr (report res)"
    by blast
  then have p: "map_sum id report
        (main example_world (Hours 24) [] [''https://good.example/ics''] ''2024-03-15'')
     = render_markdown example_world [item_hearing, item_session] ''2024-03-15''"
    using m kr by simp
  from s r k p show ?thesis by simp
qed

text \<open>
  C7. The title of an item line should be a hyperlink exactly when the item's link is
  non-empty. The lines of calendar events do this; the lines of press releases do not:
  at a press release with an empty link \<open>render_markdown\<close> still writes link markup,
  with an empty target, where the same item as a calendar event is written as plain
  text.
\<close>

theorem rss_title_always_linked:
  "rss_bullet example_world item_transit
     = Inr (''- **2024-03-14 04:00** '' @ em_dash @ '' [Transit update]()  _Senate Press_'')
   \<and> link item_transit = []
   \<and> ics_bullet example_world (item_transit\<lparr>item_type := ''ics''\<rparr>)
     = Inr (''- **2024-03-14 04:00** '' @ em_dash @ '' Transit update  _Senate Press_'')"
  by code_simp

text \<open>
  C8. The title of every item should be non-empty, a placeholder standing in for a
  missing or blank title. \<open>fetch_rss\<close> does this; \<open>fetch_ics\<close> substitutes the
  placeholder only when the event has no \<open>SUMMARY\<close> at all: at an event whose
  summary is the empty string the item's title is empty, where an RSS entry with an
  empty title gets the placeholder.
\<close>

theorem blank_summary_gives_empty_title:
  "ics_item example_world ''https://good.example/ics'' event_blank_summary
     = Inr (Some \<lparr>item_type = ''ics'', source = ''https://good.example/ics'', title = [],
                 link = [], dt = ''2024-03-15T12:00:00+00:00''\<rparr>)
   \<and> c_summary event_blank_summary = Some []
   \<and> rss_item example_world ''u'' example_feed (entry_tuple\<lparr>e_title := Some []\<rparr>)
     = Inr (Some \<lparr>item_type = ''rss'', source = ''Senate Press'', title = ''(untitled)'',
                 link = [], dt = ''2024-03-14T08:00:00+00:00''\<rparr>)"
  by code_simp

text \<open>
  C2. A timestamp without time zone should be read as UTC. \<open>fetch_ics\<close> and the
  RSS-only program tag a naive datetime UTC before converting; \<open>fetch_rss\<close> of
  \<open>main.py\<close> converts it with \<open>astimezone\<close> directly, which reads it in the system's
  local zone: on a machine at UTC-4 the text \<open>2024-03-15T10:00:00\<close> is stored as 14:00
  UTC by \<open>fetch_rss\<close> and as 10:00 UTC by the other two paths.
\<close>

theorem naive_rss_timestamp_read_as_local:
  "dtparse_parse example_world ''2024-03-15T10:00:00''
     = Inr \<lparr>year = 2024, month = 3, day = 15, hour = 10, minute = 0, second = 0,
            microsecond = 0, tzinfo = None\<rparr>
   \<and> local_utcoffset example_world
       \<lparr>year = 2024, month = 3, day = 15, hour = 10, minute = 0, second = 0,
        microsecond = 0, tzinfo = None\<rparr> = - 14400
   \<and> rss_item example_world ''https://naive.example/rss'' naive_feed entry_naive
     = Inr (Some \<lparr>item_type = ''rss'', source = ''Senate Press'', title = ''Naive'',
                 link = [], dt = ''2024-03-15T14:00:00+00:00''\<rparr>)
   \<and> ics_dt_utc example_world (DateTimeValue
       \<lparr>year = 2024, month = 3, day = 15, hour = 10, minute = 0, second = 0,
        microsecond = 0, tzinfo = None\<rparr>)
     = Inr \<lparr>year = 2024, month = 3, day = 15, hour = 10, minute = 0, second = 0,
            microsecond = 0, tzinfo = Some 0\<rparr>
   \<and> bill_of_entry example_world
       \<lparr>year = 2024, month = 3, day = 14, hour = 12, minute = 0, second = 0,
        microsecond = 0, tzinfo = Some 0\<rparr> ''Senate Press'' entry_naive
     = Inr (Some \<lparr>b_when = \<lparr>year = 2024, month = 3, day = 15, hour = 10, minute = 0,
                            second = 0, microsecond = 0, tzinfo = Some 0\<rparr>,
                 b_title = ''Naive'', b_link = [], b_source = ''Senate Press''\<rparr>)"
  by code_simp




text \<open>
  C5. In the report that \<open>render_markdown\<close> returns, each section lists its items in
  descending order of their timestamps: line \<open>i\<close> of a section is the line of the
  \<open>i\<close>-th item of the sorted category, and for every two adjacent items the timestamp of
  the later line is not after that of the earlier one, as Python compares the UTC
  datetimes. The section holds exactly the items of its category, and items with the same
  timestamp keep the order in which they arrived. \<open>main.py\<close> sorts by the stored ISO 8601
  string, which orders UTC timestamps as their datetimes. The RSS-only program sorts by
  the datetime itself, and the report it writes lists the lines of the sorted items in
  that order.
\<close>

theorem sections_sorted_newest_first:
  assumes "list_all stored_utc items"
  shows "(\<exists>rb ib.
       render_markdown w items d
         = Inr (join_lines
             ([''# Massachusetts Policy Feed '' @ em_dash @ '' '' @ d, []]
              @ (if filter (\<lambda>i. item_type i = ''rss'') items = []
                 then [''## Press Releases'', ''> No new items in the last 24 hours.'', []]
                 else [''## Press Releases (last 24h)'', []] @ rb @ [[]])
              @ (if filter (\<lambda>i. item_type i = ''ics'') items = []
                 then [''## Hearings & Meetings'', ''> No events starting in the last 24 hours.'', []]
                 else [''## Hearings & Meetings (last 24h window start times)'', []] @ ib @ [[]])))
       \<and> bullets (rss_bullet w) (rss_section_items items) = Inr rb
       \<and> length rb = length (rss_section_items items)
       \<and> (\<forall>i<length rb. rss_bullet w (rss_section_items items ! i) = Inr (rb ! i))
       \<and> bullets (ics_bullet w) (ics_section_items items) = Inr ib
       \<and> length ib = length (ics_section_items items)
       \<and> (\<forall>i<length ib. ics_bullet w (ics_section_items items ! i) = Inr (ib ! i)))
     \<and> (\<forall>i a b. Suc i < length (rss_section_items items)
           \<longrightarrow> fromisoformat (dt (rss_section_items items ! i)) = Some a
           \<longrightarrow> fromisoformat (dt (rss_section_items items ! Suc i)) = Some b
           \<longrightarrow> dt_key b \<le> dt_key a)
     \<and> (\<forall>a. filter (\<lambda>x. fromisoformat (dt x) = Some a) (rss_section_items items)
              = filter (\<lambda>x. fromisoformat (dt x) = Some a)
                  (filter (\<lambda>i. item_type i = ''rss'') items))
     \<and> mset (rss_section_items items) = mset (filter (\<lambda>i. item_type i = ''rss'') items)
     \<and> (\<forall>i a b. Suc i < length (ics_section_items items)
           \<longrightarrow> fromisoformat (dt (ics_section_items items ! i)) = Some a
           \<longrightarrow> fromisoformat (dt (ics_section_items items ! Suc i)) = Some b
           \<longrightarrow> dt_key b \<le> dt_key a)
     \<and> (\<forall>a. filter (\<lambda>x. fromisoformat (dt x) = Some a) (ics_section_items items)
              = filter (\<lambda>x. fromisoformat (dt x) = Some a)
                  (filter (\<lambda>i. item_type i = ''ics'') items))
     \<and> mset (ics_section_items items) = mset (filter (\<lambda>i. item_type i = ''ics'') items)
     \<and> (\<forall>since bs ls.
           add_datetime_timedelta (now_utc w) (timedelta_hours H) (- 1) = Inr since
           \<and> urls \<noteq> [] \<and> bills_of_urls w since urls = Inr bs
           \<and> bill_lines w (sort_bills bs) = Inr ls
         \<longrightarrow> main_rss_only w H urls date_title
               = Inr (Some ([''# Massachusetts Bills Introduced '' @ em_dash @ '' '' @ date_title, []]
                      @ (if bs = [] then [''> No new items found in the last 24 hours.''] else ls)
                      @ [[]]))
             \<and> length ls = length (sort_bills bs)
             \<and> (\<forall>i<length ls. bill_line w (sort_bills bs ! i) = Inr (ls ! i)))
     \<and> (\<forall>i. Suc i < length (sort_bills bs)
           \<longrightarrow> dt_key (b_when (sort_bills bs ! Suc i)) \<le> dt_key (b_when (sort_bills bs ! i)))
     \<and> (\<forall>k. filter (\<lambda>x. dt_key (b_when x) = k) (sort_bills bs)
              = filter (\<lambda>x. dt_key (b_when x) = k) bs)
     \<and> mset (sort_bills bs) = mset bs"
proof -
  have r: "list_all stored_utc (filter (\<lambda>i. item_type i = ''rss'') items)"
    and c: "list_all stored_utc (filter (\<lambda>i. item_type i = ''ics'') items)"
    using assms by (simp_all add: list_all_iff)
  note sr = stored_sorted_by_timestamp[OF r, folded rss_section_items_def]
  note sc = stored_sorted_by_timestamp[OF c, folded ics_section_items_def]
  have b1: "\<forall>i. Suc i < length (sort_bills bs)
           \<longrightarrow> dt_key (b_when (sort_bills bs ! Suc i)) \<le> dt_key (b_when (sort_bills bs ! i))"
    unfolding sort_bills_def using sorted_reverse_adjacent[of _ "\<lambda>x. dt_key (b_when x)" bs] by blast
  have b2: "\<forall>k. filter (\<lambda>x. dt_key (b_when x) = k) (sort_bills bs)
              = filter (\<lambda>x. dt_key (b_when x) = k) bs"
    unfolding sort_bills_def by (simp add: sorted_reverse_stable)
  have b3: "mset (sort_bills bs) = mset bs"
    by (simp add: sort_bills_def sorted_reverse_mset)
  have m1: "mset (rss_section_items items) = mset (filter (\<lambda>i. item_type i = ''rss'') items)"
    by (simp add: rss_section_items_def sorted_reverse_mset)
  have m2: "mset (ics_section_items items) = mset (filter (\<lambda>i. item_type i = ''ics'') items)"
    by (simp add: ics_section_items_def sorted_reverse_mset)
  from render_markdown_stored[OF assms, of w d] obtain rb ib where
    rb: "bullets (rss_bullet w) (rss_section_items items) = Inr rb"
        "length rb = length (rss_section_items items)"
    and ib: "bullets (ics_bullet w) (ics_section_items items) = Inr ib"
        "length ib = length (ics_section_items items)"
    and rm: "render_markdown w items d
         = Inr (join_lines
             ([''# Massachusetts Policy Feed '' @ em_dash @ '' '' @ d, []]
              @ (if filter (\<lambda>i. item_type i = ''rss'') items = []
                 then [''## Press Releases'', ''> No new items in the last 24 hours.'', []]
                 else [''## Press Releases (last 24h)'', []] @ rb @ [[]])
              @ (if filter (\<lambda>i. item_type i = ''ics'') items = []
                 then [''## Hearings & Meetings'', ''> No events starting in the last 24 hours.'', []]
                 else [''## Hearings & Meetings (last 24h window start times)'', []] @ ib @ [[]])))"
    by blast
  have nr: "\<forall>i<length rb. rss_bullet w (rss_section_items items ! i) = Inr (rb ! i)"
    using bullets_nth[OF rb(1)] rb(2) by simp
  have ni: "\<forall>i<length ib. ics_bullet w (ics_section_items items ! i) = Inr (ib ! i)"
    using bullets_nth[OF ib(1)] ib(2) by simp
  have rep: "\<exists>rb ib.
       render_markdown w items d
         = Inr (join_lines
             ([''# Massachusetts Policy Feed '' @ em_dash @ '' '' @ d, []]
              @ (if filter (\<lambda>i. item_type i = ''rss'') items = []
                 then [''## Press Releases'', ''> No new items in the last 24 hours.'', []]
                 else [''## Press Releases (last 24h)'', []] @ rb @ [[]])
              @ (if filter (\<lambda>i. item_type i = ''ics'') items = []
                 then [''## Hearings & Meetings'', ''> No events starting in the last 24 hours.'', []]
                 else [''## Hearings & Meetings (last 24h window start times)'', []] @ ib @ [[]])))
       \<and> bullets (rss_bullet w) (rss_section_items items) = Inr rb
       \<and> length rb = length (rss_section_items items)
       \<and> (\<forall>i<length rb. rss_bullet w (rss_section_items items ! i) = Inr (rb ! i))
       \<and> bullets (ics_bullet w) (ics_section_items items) = Inr ib
       \<and> length ib = length (ics_section_items items)
       \<and> (\<forall>i<length ib. ics_bullet w (ics_section_items items ! i) = Inr (ib ! i))"
    using rm rb ib nr ni by blast
  have ro: "\<forall>since bs ls.
           add_datetime_timedelta (now_utc w) (timedelta_hours H) (- 1) = Inr since
           \<and> urls \<noteq> [] \<and> bills_of_urls w since urls = Inr bs
           \<and> bill_lines w (sort_bills bs) = Inr ls
         \<longrightarrow> main_rss_only w H urls date_title
               = Inr (Some ([''# Massachusetts Bills Introduced '' @ em_dash @ '' '' @ date_title, []]
                      @ (if bs = [] then [''> No new items found in the last 24 hours.''] else ls)
                      @ [[]]))
             \<and> length ls = length (sort_bills bs)
             \<and> (\<forall>i<length ls. bill_line w (sort_bills bs ! i) = Inr (ls ! i))"
  proof (intro allI impI, elim conjE)
    fix since bs ls
    assume a: "add_datetime_timedelta (now_utc w) (timedelta_hours H) (- 1) = Inr since"
      "urls \<noteq> []" "bills_of_urls w since urls = Inr bs" "bill_lines w (sort_bills bs) = Inr ls"
    note n = bill_lines_nth[OF a(4)]
    from main_rss_only_report[OF a] n
    show "main_rss_only w H urls date_title
               = Inr (Some ([''# Massachusetts Bills Introduced '' @ em_dash @ '' '' @ date_title, []]
                      @ (if bs = [] then [''> No new items found in the last 24 hours.''] else ls)
                      @ [[]]))
             \<and> length ls = length (sort_bills bs)
             \<and> (\<forall>i<length ls. bill_line w (sort_bills bs ! i) = Inr (ls ! i))"
      by simp
  qed
  from rep sr sc m1 m2 ro b1 b2 b3 show ?thesis by (intro conjI)
qed


theorem sections_sorted_newest_first_witness:
  "list_all stored_utc [item_transit, item_hearing, item_budget, item_boundary]
   \<and> render_markdown example_world [item_transit, item_hearing, item_budget, item_boundary]
        ''2024-03-15''
       = Inr (join_lines
           [''# Massachusetts Policy Feed '' @ em_dash @ '' 2024-03-15'', [],
            ''## Press Releases (last 24h)'', [],
            bullet_linked ''2024-03-15 05:00'' ''Budget hearing'' ''https://example.org/a''
              ''Senate Press'',
            bullet_linked ''2024-03-14 08:00'' ''At the boundary'' ''https://example.org/a''
              ''Senate Press'',
            bullet_linked ''2024-03-14 04:00'' ''Transit update'' [] ''Senate Press'',
            [],
            ''## Hearings & Meetings (last 24h window start times)'', [],
            bullet_plain ''2024-03-15 08:00'' ''Committee hearing'' ''https://good.example/ics'',
            []])
   \<and> rss_section_items [item_transit, item_hearing, item_budget, item_boundary]
       = [item_budget, item_boundary, item_transit]
   \<and> fromisoformat (dt item_budget)
       = Some \<lparr>year = 2024, month = 3, day = 15, hour = 9, minute = 0, second = 0,
                microsecond = 0, tzinfo = Some 0\<rparr>
   \<and> fromisoformat (dt item_boundary)
       = Some \<lparr>year = 2024, month = 3, day = 14, hour = 12, minute = 0, second = 0,
                microsecond = 0, tzinfo = Some 0\<rparr>
   \<and> dt_key \<lparr>year = 2024, month = 3, day = 14, hour = 12, minute = 0, second = 0,
                microsecond = 0, tzinfo = Some 0\<rparr>
       \<le> dt_key \<lparr>year = 2024, month = 3, day = 15, hour = 9, minute = 0, second = 0,
                microsecond = 0, tzinfo = Some 0\<rparr>
   \<and> main_rss_only example_world 48 [''https://good.example/rss'', ''https://naive.example/rss'']
        ''2024-03-15''
       = Inr (Some
           [''# Massachusetts Bills Introduced '' @ em_dash @ '' 2024-03-15'', [],
            bullet_linked ''2024-03-15 06:00'' ''Naive'' [] ''Senate Press'',
            bullet_linked ''2024-03-15 05:00'' ''Budget hearing'' ''https://example.org/a''
              ''Senate Press'',
            bullet_linked ''2024-03-14 04:00'' ''Transit update'' [] ''Senate Press'',
            []])"
proof -
  let ?xs = "[item_transit, item_hearing, item_budget, item_boundary]"
  let ?urls = "[''https://good.example/rss'', ''https://naive.example/rss'']"
  let ?since = "\<lparr>year = 2024, month = 3, day = 13, hour = 12, minute = 0, second = 0,
                  microsecond = 0, tzinfo = Some 0\<rparr>"
  let ?b1 = "\<lparr>b_when = \<lparr>year = 2024, month = 3, day = 15, hour = 9, minute = 0, second = 0,
                          microsecond = 0, tzinfo = Some 0\<rparr>,
               b_title = ''Budget hearing'', b_link = ''https://example.org/a'',
               b_source = ''Senate Press''\<rparr>"
  let ?b2 = "\<lparr>b_when = \<lparr>year = 2024, month = 3, day = 14, hour = 8, minute = 0, second = 0,
                          microsecond = 0, tzinfo = Some 0\<rparr>,
               b_title = ''Transit update'', b_link = [], b_source = ''Senate Press''\<rparr>"
  let ?b3 = "\<lparr>b_when = \<lparr>year = 2024, month = 3, day = 15, hour = 10, minute = 0, second = 0,
                          microsecond = 0, tzinfo = Some 0\<rparr>,
               b_title = ''Naive'', b_link = [], b_source = ''Senate Press''\<rparr>"
  let ?l1 = "bullet_linked ''2024-03-15 05:00'' ''Budget hearing'' ''https://example.org/a''
               ''Senate Press''"
  let ?l2 = "bullet_linked ''2024-03-14 04:00'' ''Transit update'' [] ''Senate Press''"
  let ?l3 = "bullet_linked ''2024-03-15 06:00'' ''Naive'' [] ''Senate Press''"
  let ?lb = "bullet_linked ''2024-03-14 08:00'' ''At the boundary'' ''https://example.org/a''
               ''Senate Press''"
  let ?lh = "bullet_plain ''2024-03-15 08:00'' ''Committee hearing'' ''https://good.example/ics''"
  have s: "list_all stored_utc ?xs" by code_simp
  have r: "rss_section_items ?xs = [item_budget, item_boundary, item_transit]" by code_simp
  have a: "fromisoformat (dt item_budget)
       = Some \<lparr>year = 2024, month = 3, day = 15, hour = 9, minute = 0, second = 0,
                microsecond = 0, tzinfo = Some 0\<rparr>" by code_simp
  have b: "fromisoformat (dt item_boundary)
       = Some \<lparr>year = 2024, month = 3, day = 14, hour = 12, minute = 0, second = 0,
                microsecond = 0, tzinfo = Some 0\<rparr>" by code_simp
  have f: "filter (\<lambda>i. item_type i = ''rss'') ?xs \<noteq> []"
          "filter (\<lambda>i. item_type i = ''ics'') ?xs \<noteq> []"
    by (simp_all add: item_hearing_def item_transit_def)
  have br: "bullets (rss_bullet example_world) (rss_section_items ?xs) = Inr [?l1, ?lb, ?l2]"
    by code_simp
  have bi: "bullets (ics_bullet example_world) (ics_section_items ?xs) = Inr [?lh]"
    by code_simp
  have h1: "add_datetime_timedelta (now_utc example_world) (timedelta_hours 48) (- 1) = Inr ?since"
    by code_simp
  have h2: "bills_of_urls example_world ?since ?urls = Inr [?b1, ?b2, ?b3]"
    by code_simp
  have h3: "bill_lines example_world (sort_bills [?b1, ?b2, ?b3]) = Inr [?l3, ?l1, ?l2]"
    by code_simp
  note t = sections_sorted_newest_first[OF s, where w = example_world and d = "''2024-03-15''"
      and H = 48 and urls = ?urls and date_title = "''2024-03-15''"]
  from t[THEN conjunct1] br bi f
  have m: "render_markdown example_world ?xs ''2024-03-15''
       = Inr (join_lines
           ([''# Massachusetts Policy Feed '' @ em_dash @ '' '' @ ''2024-03-15'', []]
            @ ([''## Press Releases (last 24h)'', []] @ [?l1, ?lb, ?l2] @ [[]])
            @ ([''## Hearings & Meetings (last 24h window start times)'', []] @ [?lh] @ [[]])))"
    by auto
  from t[THEN conjunct2, THEN conjunct1, rule_format, of 0] r a b
  have k: "dt_key \<lparr>year = 2024, month = 3, day = 14, hour = 12, minute = 0, second = 0,
                microsecond = 0, tzinfo = Some 0\<rparr>
       \<le> dt_key \<lparr>year = 2024, month = 3, day = 15, hour = 9, minute = 0, second = 0,
                microsecond = 0, tzinfo = Some 0\<rparr>"
    by simp
  from t[THEN conjunct2, THEN conjunct2, THEN conjunct2, THEN conjunct2, THEN conjunct2,
         THEN conjunct2, THEN conjunct2, THEN conjunct1, rule_format,
         of ?since "[?b1, ?b2, ?b3]" "[?l3, ?l1, ?l2]"] h1 h2 h3
  have o: "main_rss_only example_world 48 ?urls ''2024-03-15''
       = Inr (Some ([''# Massachusetts Bills Introduced '' @ em_dash @ '' '' @ ''2024-03-15'', []]
                    @ [?l3, ?l1, ?l2] @ [[]]))"
    by simp
  from s m r a b k o show ?thesis by simp
qed

end
